theory Spec2Isabelle
  imports Main "HOL-Library.Word"
begin

section \<open>Common types of the EVS interfaces\<close>

text \<open>
  The sources use \<open>unsigned\<close> and \<open>uint32_t\<close> counters; they are 32-bit words here, so
  that \<open>+\<close> and \<open>-\<close> wrap as they do in the program and \<open>\<le>\<close>, \<open><\<close> are the unsigned
  comparisons. Object addresses (\<open>sp\<close>, \<open>wp\<close>, \<open>this\<close>) are natural numbers; a possibly
  null pointer is an \<open>option\<close>.
\<close>

type_synonym u32 = "32 word"

datatype EvsResult =
    OK
  | INVALID_ARG
  | STREAM_ALREADY_RUNNING
  | BUFFER_NOT_AVAILABLE
  | OWNERSHIP_LOST
  | UNDERLYING_SERVICE_ERROR

datatype EvsEventType =
    STREAM_STARTED
  | STREAM_STOPPED
  | FRAME_DROPPED
  | TIMEOUT
  | PARAMETER_CHANGED
  | MASTER_RELEASED

section \<open>std::vector with a capacity (HalCamera::makeVirtualCamera)\<close>

text \<open>
  A \<open>std::vector\<close> is its elements together with its capacity. \<open>reserve\<close> only raises the
  capacity: the size, which is the length of the element list, stays what it was.
  Indexing is total here: \<open>operator[]\<close> at an index that is not below the size yields
  no cell, so a write there is the error \<open>None\<close>.
\<close>

record 'a vector =
  elems :: "'a list"
  capacity :: nat

definition vector_empty :: "'a vector" where
  "vector_empty = \<lparr>elems = [], capacity = 0\<rparr>"

definition vector_size :: "'a vector \<Rightarrow> nat" where
  "vector_size v = length (elems v)"

definition vector_reserve :: "nat \<Rightarrow> 'a vector \<Rightarrow> 'a vector" where
  "vector_reserve n v = (if capacity v < n then v\<lparr>capacity := n\<rparr> else v)"

definition vector_assign :: "'a vector \<Rightarrow> nat \<Rightarrow> 'a \<Rightarrow> 'a vector option" where
  "vector_assign v i x =
     (if i < vector_size v then Some (v\<lparr>elems := (elems v)[i := x]\<rparr>) else None)"

datatype makeVirtualCamera_error = IndexOutOfBounds

text \<open>
  The first three statements of \<open>HalCamera::makeVirtualCamera\<close>: the local vector is
  default-constructed, \<open>reserve(1)\<close> is called, and \<open>sourceCameras[0] = this\<close> is
  executed. The result is the vector handed to the \<open>VirtualCamera\<close> constructor, or the
  error of the access.
\<close>

definition makeVirtualCamera_sourceCameras ::
  "nat \<Rightarrow> makeVirtualCamera_error + nat vector" where
  "makeVirtualCamera_sourceCameras this =
     (let sourceCameras = vector_reserve 1 vector_empty
      in case vector_assign sourceCameras 0 this of
           None \<Rightarrow> Inl IndexOutOfBounds
         | Some v \<Rightarrow> Inr v)"

section \<open>The broker: HalCamera\<close>

text \<open>
  \<open>FrameRecord\<close> is the tracker's record \<open>{frameId, refCount}\<close>, declared in
  HalCamera.h with both fields \<open>uint32_t\<close>: \<open>frameId\<close> holds a \<open>bufferId\<close>, \<open>refCount\<close> is
  assigned from the \<open>unsigned\<close> delivery counter, and decrementing a zero count wraps to
  \<open>2^32 - 1\<close>. A \<open>FrameRequest\<close> holds the weak reference to the requesting
  client and the timestamp of the last frame that client has seen. Timestamps are
  \<open>int64_t\<close> microseconds and are integers here (a difference of two timestamps is
  never near the 64-bit limits).
\<close>

record FrameRecord =
  frameId :: u32
  refCount :: u32

record FrameRequest =
  client :: nat
  req_timestamp :: int

record BufferDesc_1_1 =
  bufferId :: u32
  buf_timestamp :: int
  nativeHandle :: "nat option"

datatype StreamState = STOPPED | RUNNING | STOPPING

text \<open>
  What the broker calls but does not own. \<open>promote e c\<close> says that the weak pointer
  to the client at address \<open>c\<close> still promotes to a live object;
  \<open>getAllowedBuffers\<close> and \<open>getVersion\<close> are the client's getters;
  \<open>vc_deliverFrame e k c\<close> is the result of the \<open>k\<close>-th call of
  \<open>VirtualCamera::deliverFrame\<close> made by the broker, on client \<open>c\<close> (any sequence of
  results can be supplied); \<open>hw_setMaxFramesInFlight e n\<close> is the device's answer to a
  request for \<open>n\<close> buffers, \<open>None\<close> when the call itself failed in transport.
\<close>

record Collaborators =
  promote :: "nat \<Rightarrow> bool"
  getAllowedBuffers :: "nat \<Rightarrow> u32"
  getVersion :: "nat \<Rightarrow> nat"
  vc_deliverFrame :: "nat \<Rightarrow> nat \<Rightarrow> bool"
  hw_setMaxFramesInFlight :: "u32 \<Rightarrow> EvsResult option"

text \<open>
  The broker's members, and the calls it has made on its collaborators in the order it
  made them: \<open>hwDoneWithFrame\<close> (buffer ids handed back to the device),
  \<open>hwMaxFramesInFlight\<close> (buffer counts requested from the device),
  \<open>vcDeliverFrame\<close> (client and result of each \<open>VirtualCamera::deliverFrame\<close>),
  \<open>vcNotify\<close> (client and event of each \<open>VirtualCamera::notify\<close>) and
  \<open>timelineBumps\<close> (clients whose timeline counter was bumped).
\<close>

record HalCamera =
  mClients :: "nat list"
  mFrames :: "FrameRecord list"
  mMaster :: "nat option"
  mCurrentRequests :: "FrameRequest list"
  mNextRequests :: "FrameRequest list"
  mStreamState :: StreamState
  timelineBumps :: "nat list"
  hwDoneWithFrame :: "u32 list"
  hwMaxFramesInFlight :: "u32 list"
  vcDeliverFrame :: "(nat \<times> bool) list"
  vcNotify :: "(nat \<times> EvsEventType) list"

definition wp_promote :: "Collaborators \<Rightarrow> nat option \<Rightarrow> nat option" where
  "wp_promote e p =
     (case p of None \<Rightarrow> None | Some a \<Rightarrow> if promote e a then Some a else None)"

subsection \<open>changeFramesInFlight\<close>

text \<open>The loop over \<open>mClients\<close> that adds up the buffers of the clients still alive.\<close>

fun countClientBuffers :: "Collaborators \<Rightarrow> nat list \<Rightarrow> u32 \<Rightarrow> u32" where
  "countClientBuffers e [] bufferCount = bufferCount"
| "countClientBuffers e (c # cs) bufferCount =
     countClientBuffers e cs
       (if promote e c then bufferCount + getAllowedBuffers e c else bufferCount)"

text \<open>The loop that copies the records still in use into \<open>newRecords\<close>.\<close>

fun copyActiveRecords :: "FrameRecord list \<Rightarrow> FrameRecord list \<Rightarrow> FrameRecord list" where
  "copyActiveRecords [] newRecords = newRecords"
| "copyActiveRecords (r # rs) newRecords =
     copyActiveRecords rs (if 0 < refCount r then newRecords @ [r] else newRecords)"

text \<open>
  \<open>delta\<close> is an \<open>int\<close> added to the \<open>unsigned\<close> count, so it is converted modulo
  \<open>2^32\<close>. The warning about more frames in use than requested changes nothing.
\<close>

definition changeFramesInFlight ::
  "Collaborators \<Rightarrow> int \<Rightarrow> HalCamera \<Rightarrow> bool \<times> HalCamera" where
  "changeFramesInFlight e delta st =
     (let counted = countClientBuffers e (mClients st) 0;
          summed = counted + word_of_int delta;
          bufferCount = (if summed < 1 then 1 else summed);
          result = hw_setMaxFramesInFlight e bufferCount;
          success = (result = Some OK);
          st1 = st\<lparr>hwMaxFramesInFlight := hwMaxFramesInFlight st @ [bufferCount]\<rparr>
      in if success
         then (True, st1\<lparr>mFrames := copyActiveRecords (mFrames st1) []\<rparr>)
         else (False, st1))"

subsection \<open>doneWithFrame\<close>

text \<open>
  The search loop \<open>for (i = 0; i < mFrames.size(); i++) if (frameId == id) break\<close>:
  the index of the first record with that id, or the size when there is none.
\<close>

fun findFrame :: "u32 \<Rightarrow> FrameRecord list \<Rightarrow> nat" where
  "findFrame bufId [] = 0"
| "findFrame bufId (r # rs) = (if frameId r = bufId then 0 else Suc (findFrame bufId rs))"

definition doneWithFrame :: "BufferDesc_1_1 \<Rightarrow> HalCamera \<Rightarrow> HalCamera" where
  "doneWithFrame buffer st =
     (let i = findFrame (bufferId buffer) (mFrames st)
      in if i = length (mFrames st) then st
         else
           let r = (mFrames st) ! i;
               r1 = r\<lparr>refCount := refCount r - 1\<rparr>;
               st1 = st\<lparr>mFrames := (mFrames st)[i := r1]\<rparr>
           in if refCount r1 \<le> 0
              then st1\<lparr>hwDoneWithFrame := hwDoneWithFrame st1 @ [bufferId buffer]\<rparr>
              else st1)"

subsection \<open>deliverFrame_1_1\<close>

definition kThreshold :: int where
  "kThreshold = 16000"

text \<open>
  The loop that drains \<open>mCurrentRequests\<close>, with the counter \<open>frameDeliveriesV1\<close>.
  A request of a dead client is dropped, one that comes too soon is pushed onto
  \<open>mNextRequests\<close>, any other is forwarded to its client.
\<close>

fun processRequests ::
  "Collaborators \<Rightarrow> BufferDesc_1_1 \<Rightarrow> FrameRequest list \<Rightarrow> HalCamera \<times> u32
   \<Rightarrow> HalCamera \<times> u32" where
  "processRequests e buffer [] (st, frameDeliveriesV1) = (st, frameDeliveriesV1)"
| "processRequests e buffer (req # rest) (st, frameDeliveriesV1) =
     (if \<not> promote e (client req)
      then processRequests e buffer rest (st, frameDeliveriesV1)
      else if buf_timestamp buffer - req_timestamp req < kThreshold
      then processRequests e buffer rest
             (st\<lparr>mNextRequests := mNextRequests st @ [req]\<rparr>, frameDeliveriesV1)
      else
        let accepted = vc_deliverFrame e (length (vcDeliverFrame st)) (client req);
            st1 = st\<lparr>vcDeliverFrame := vcDeliverFrame st @ [(client req, accepted)]\<rparr>
        in if accepted
           then processRequests e buffer rest
                  (st1\<lparr>timelineBumps := timelineBumps st1 @ [client req]\<rparr>,
                   frameDeliveriesV1 + 1)
           else processRequests e buffer rest (st1, frameDeliveriesV1))"

text \<open>The loop over \<open>mClients\<close> that forwards the frame to every v1.0 client.\<close>

fun forwardToLegacy ::
  "Collaborators \<Rightarrow> BufferDesc_1_1 \<Rightarrow> nat list \<Rightarrow> HalCamera \<times> u32 \<Rightarrow> HalCamera \<times> u32" where
  "forwardToLegacy e buffer [] (st, frameDeliveries) = (st, frameDeliveries)"
| "forwardToLegacy e buffer (c # cs) (st, frameDeliveries) =
     (if \<not> promote e c \<or> 0 < getVersion e c
      then forwardToLegacy e buffer cs (st, frameDeliveries)
      else
        let accepted = vc_deliverFrame e (length (vcDeliverFrame st)) c;
            st1 = st\<lparr>vcDeliverFrame := vcDeliverFrame st @ [(c, accepted)]\<rparr>
        in forwardToLegacy e buffer cs
             (st1, if accepted then frameDeliveries + 1 else frameDeliveries))"

text \<open>
  The search loop \<open>for (i = 0; i < mFrames.size(); ++i) if (refCount == 0) break\<close>.
\<close>

fun findFreeRecord :: "FrameRecord list \<Rightarrow> nat" where
  "findFreeRecord [] = 0"
| "findFreeRecord (r # rs) = (if refCount r = 0 then 0 else Suc (findFreeRecord rs))"

text \<open>
  The end of \<open>deliverFrame_1_1\<close>, from \<open>frameDeliveries += frameDeliveriesV1\<close> on.
  \<open>emplace_back(id)\<close> appends a record with count 0, whose count is then set.
\<close>

definition trackFrame :: "BufferDesc_1_1 \<Rightarrow> u32 \<Rightarrow> HalCamera \<Rightarrow> HalCamera" where
  "trackFrame buffer frameDeliveries st =
     (if frameDeliveries < 1
      then st\<lparr>hwDoneWithFrame := hwDoneWithFrame st @ [bufferId buffer]\<rparr>
      else
        let i = findFreeRecord (mFrames st);
            frames1 =
              (if i = length (mFrames st)
               then mFrames st @ [\<lparr>frameId = bufferId buffer, refCount = 0\<rparr>]
               else (mFrames st)[i := ((mFrames st) ! i)\<lparr>frameId := bufferId buffer\<rparr>])
        in st\<lparr>mFrames := frames1[i := (frames1 ! i)\<lparr>refCount := frameDeliveries\<rparr>]\<rparr>)"

definition deliverFrame_1_1 :: "Collaborators \<Rightarrow> BufferDesc_1_1 \<Rightarrow> HalCamera \<Rightarrow> HalCamera" where
  "deliverFrame_1_1 e buffer st =
     (let swapped = st\<lparr>mCurrentRequests := mNextRequests st,
                       mNextRequests := mCurrentRequests st\<rparr>;
          (st1, frameDeliveriesV1) =
             processRequests e buffer (mCurrentRequests swapped)
               (swapped\<lparr>mCurrentRequests := []\<rparr>, 0);
          (st2, frameDeliveries) = forwardToLegacy e buffer (mClients st1) (st1, 0)
      in trackFrame buffer (frameDeliveries + frameDeliveriesV1) st2)"

subsection \<open>notify, setMaster, unsetMaster\<close>

text \<open>The loop of \<open>notify\<close> that forwards the event to every client still alive.\<close>

fun forwardEvent ::
  "Collaborators \<Rightarrow> EvsEventType \<Rightarrow> nat list \<Rightarrow> HalCamera \<Rightarrow> HalCamera" where
  "forwardEvent e ev [] st = st"
| "forwardEvent e ev (c # cs) st =
     forwardEvent e ev cs
       (if promote e c then st\<lparr>vcNotify := vcNotify st @ [(c, ev)]\<rparr> else st)"

definition notify :: "Collaborators \<Rightarrow> EvsEventType \<Rightarrow> HalCamera \<Rightarrow> HalCamera" where
  "notify e ev st =
     (let st1 = (if ev = STREAM_STOPPED then st\<lparr>mStreamState := STOPPED\<rparr> else st)
      in forwardEvent e ev (mClients st1) st1)"

definition setMaster :: "nat option \<Rightarrow> HalCamera \<Rightarrow> EvsResult \<times> HalCamera" where
  "setMaster virtualCamera st =
     (if mMaster st = None then (OK, st\<lparr>mMaster := virtualCamera\<rparr>)
      else (OWNERSHIP_LOST, st))"

definition unsetMaster ::
  "Collaborators \<Rightarrow> nat option \<Rightarrow> HalCamera \<Rightarrow> EvsResult \<times> HalCamera" where
  "unsetMaster e virtualCamera st =
     (if wp_promote e (mMaster st) \<noteq> virtualCamera then (INVALID_ARG, st)
      else (OK, notify e MASTER_RELEASED (st\<lparr>mMaster := None\<rparr>)))"

section \<open>The virtual client's slot pair: StreamHandler\<close>

text \<open>
  \<open>mHeldBuffer\<close> and \<open>mReadyBuffer\<close> are \<open>int\<close> indices into the two-element array
  \<open>mBuffers\<close>, with -1 for "none". \<open>camDoneWithFrame\<close> lists the descriptors handed to
  \<open>mCamera->doneWithFrame_1_1\<close>. Indexing is total: a read of \<open>mBuffers\<close> at an index
  outside the array yields \<open>None\<close>, and a store outside the array stores nothing.
\<close>

record StreamHandler =
  mHeldBuffer :: int
  mReadyBuffer :: int
  mBuffers :: "BufferDesc_1_1 list"
  camDoneWithFrame :: "BufferDesc_1_1 option list"

definition buffer_at :: "BufferDesc_1_1 list \<Rightarrow> int \<Rightarrow> BufferDesc_1_1 option" where
  "buffer_at bs i = (if 0 \<le> i \<and> i < int (length bs) then Some (bs ! nat i) else None)"

definition buffer_store ::
  "BufferDesc_1_1 list \<Rightarrow> int \<Rightarrow> BufferDesc_1_1 \<Rightarrow> BufferDesc_1_1 list" where
  "buffer_store bs i v = (if 0 \<le> i \<and> i < int (length bs) then bs[nat i := v] else bs)"

definition emptyBufferDesc :: BufferDesc_1_1 where
  "emptyBufferDesc = \<lparr>bufferId = 0, buf_timestamp = 0, nativeHandle = None\<rparr>"

text \<open>
  Modelled from the spec: the values of the two indices after construction, which are
  set in the class declaration (StreamHandler.h); the spec has -1 for "no slot", so a
  new client holds nothing and has nothing ready.
\<close>

definition StreamHandler_init :: StreamHandler where
  "StreamHandler_init =
     \<lparr>mHeldBuffer = - 1, mReadyBuffer = - 1,
      mBuffers = [emptyBufferDesc, emptyBufferDesc], camDoneWithFrame = []\<rparr>"

definition newFrameAvailable :: "StreamHandler \<Rightarrow> bool" where
  "newFrameAvailable st = (0 \<le> mReadyBuffer st)"

text \<open>
  \<open>getNewFrame\<close> returns \<open>mBuffers[mHeldBuffer]\<close> of the state it leaves. When nothing
  is ready it first sets \<open>mReadyBuffer = 0\<close> (the source's comment: "This is a lie!").
\<close>

definition getNewFrame :: "StreamHandler \<Rightarrow> BufferDesc_1_1 option \<times> StreamHandler" where
  "getNewFrame st =
     (let st1 =
        (if 0 \<le> mHeldBuffer st then st
         else
           let st2 = (if mReadyBuffer st < 0 then st\<lparr>mReadyBuffer := 0\<rparr> else st)
           in st2\<lparr>mHeldBuffer := mReadyBuffer st2, mReadyBuffer := - 1\<rparr>)
      in (buffer_at (mBuffers st1) (mHeldBuffer st1), st1))"

text \<open>
  \<open>doneWithFrame\<close> of the stream handler only logs an error when nothing is held or the
  id is not the held one; it sends \<open>mBuffers[mHeldBuffer]\<close> back and clears the held
  slot in every case.
\<close>

definition StreamHandler_doneWithFrame :: "BufferDesc_1_1 \<Rightarrow> StreamHandler \<Rightarrow> StreamHandler" where
  "StreamHandler_doneWithFrame bufDesc st =
     st\<lparr>camDoneWithFrame := camDoneWithFrame st @ [buffer_at (mBuffers st) (mHeldBuffer st)],
        mHeldBuffer := - 1\<rparr>"

definition StreamHandler_deliverFrame_1_1 ::
  "BufferDesc_1_1 \<Rightarrow> StreamHandler \<Rightarrow> StreamHandler" where
  "StreamHandler_deliverFrame_1_1 bufDesc st =
     (if nativeHandle bufDesc = None then st
      else
        let st1 =
          (if 0 \<le> mReadyBuffer st
           then st\<lparr>camDoneWithFrame :=
                     camDoneWithFrame st @ [buffer_at (mBuffers st) (mReadyBuffer st)]\<rparr>
           else if 0 \<le> mHeldBuffer st
           then st\<lparr>mReadyBuffer := 1 - mHeldBuffer st\<rparr>
           else st\<lparr>mReadyBuffer := 0\<rparr>)
        in st1\<lparr>mBuffers := buffer_store (mBuffers st1) (mReadyBuffer st1) bufDesc\<rparr>)"

datatype StreamHandlerCall =
    DeliverFrame BufferDesc_1_1
  | GetNewFrame
  | DoneWithFrame BufferDesc_1_1

fun StreamHandler_call :: "StreamHandler \<Rightarrow> StreamHandlerCall \<Rightarrow> StreamHandler" where
  "StreamHandler_call st (DeliverFrame b) = StreamHandler_deliverFrame_1_1 b st"
| "StreamHandler_call st GetNewFrame = snd (getNewFrame st)"
| "StreamHandler_call st (DoneWithFrame b) = StreamHandler_doneWithFrame b st"

definition StreamHandler_run :: "StreamHandlerCall list \<Rightarrow> StreamHandler" where
  "StreamHandler_run calls = foldl StreamHandler_call StreamHandler_init calls"


text \<open>The invariant of the slot pair: both indices are -1, 0 or 1, and a ready slot is not the held one.\<close>

definition slots_ok :: "StreamHandler \<Rightarrow> bool" where
  "slots_ok st =
     (mHeldBuffer st \<in> {- 1, 0, 1} \<and> mReadyBuffer st \<in> {- 1, 0, 1}
      \<and> \<not> (0 \<le> mReadyBuffer st \<and> mReadyBuffer st = mHeldBuffer st))"


section \<open>The device adapter: EvsV4lCamera\<close>

subsection \<open>The buffer pool\<close>

text \<open>
  A \<open>BufferRecord\<close> is a graphics buffer handle (\<open>None\<close> for \<open>nullptr\<close>) and the flag
  \<open>inUse\<close>. One call of the graphics allocator either fails or yields a handle (which
  may be null) and the stride of the buffer; \<open>allocResults\<close> are the outcomes of the
  calls still to come, an exhausted allocator fails. \<open>allocFreed\<close> lists the handles
  given back with \<open>alloc.free\<close>.
\<close>

record BufferRecord =
  handle :: "nat option"
  inUse :: bool

datatype AllocResult = AllocError | AllocOk "nat option" u32

record EvsV4lCamera =
  videoIsOpen :: bool
  mFramesAllowed :: u32
  mFramesInUse :: u32
  mStride :: u32
  mBuffersV4l :: "BufferRecord list"
  allocResults :: "AllocResult list"
  allocFreed :: "nat list"

definition MAX_BUFFERS_IN_FLIGHT :: u32 where
  "MAX_BUFFERS_IN_FLIGHT = 100"

text \<open>The loop that looks for an empty record to hold a new handle.\<close>

fun storeBuffer :: "nat \<Rightarrow> BufferRecord list \<Rightarrow> BufferRecord list" where
  "storeBuffer memHandle [] = [\<lparr>handle = Some memHandle, inUse = False\<rparr>]"
| "storeBuffer memHandle (r # rs) =
     (if handle r = None then r\<lparr>handle := Some memHandle, inUse := False\<rparr> # rs
      else r # storeBuffer memHandle rs)"

text \<open>
  \<open>increaseAvailableFrames_Locked\<close>: the loop \<open>while (added < numToAdd)\<close>, by the
  number of buffers still to add; the result is \<open>added\<close>.
\<close>

fun increaseAvailableFrames_Locked :: "nat \<Rightarrow> EvsV4lCamera \<Rightarrow> nat \<times> EvsV4lCamera" where
  "increaseAvailableFrames_Locked 0 st = (0, st)"
| "increaseAvailableFrames_Locked (Suc n) st =
     (case allocResults st of
        [] \<Rightarrow> (0, st)
      | AllocError # later \<Rightarrow> (0, st\<lparr>allocResults := later\<rparr>)
      | AllocOk None pixelsPerLine # later \<Rightarrow> (0, st\<lparr>allocResults := later\<rparr>)
      | AllocOk (Some memHandle) pixelsPerLine # later \<Rightarrow>
          let st1 = st\<lparr>allocResults := later\<rparr>;
              st2 = (if mStride st1 \<noteq> 0 then st1 else st1\<lparr>mStride := pixelsPerLine\<rparr>);
              st3 = st2\<lparr>mBuffersV4l := storeBuffer memHandle (mBuffersV4l st2),
                        mFramesAllowed := mFramesAllowed st2 + 1\<rparr>;
              (added, st4) = increaseAvailableFrames_Locked n st3
          in (Suc added, st4))"

text \<open>
  \<open>decreaseAvailableFrames_Locked\<close>: the loop over \<open>mBuffers\<close> with the counter
  \<open>removed\<close>. The test \<open>removed == numToRemove\<close> comes after the increment, inside the
  branch that frees a buffer. The result is the records, the handles freed and the
  final value of \<open>removed\<close>.
\<close>

fun releaseBuffers ::
  "nat \<Rightarrow> BufferRecord list \<Rightarrow> nat \<Rightarrow> BufferRecord list \<times> nat list \<times> nat" where
  "releaseBuffers numToRemove [] removed = ([], [], removed)"
| "releaseBuffers numToRemove (r # rs) removed =
     (case handle r of
        Some h \<Rightarrow>
          if \<not> inUse r
          then
            if Suc removed = numToRemove
            then (r\<lparr>handle := None\<rparr> # rs, [h], Suc removed)
            else
              let (rs1, freed, removed1) = releaseBuffers numToRemove rs (Suc removed)
              in (r\<lparr>handle := None\<rparr> # rs1, h # freed, removed1)
          else
            let (rs1, freed, removed1) = releaseBuffers numToRemove rs removed
            in (r # rs1, freed, removed1)
      | None \<Rightarrow>
          let (rs1, freed, removed1) = releaseBuffers numToRemove rs removed
          in (r # rs1, freed, removed1))"

definition decreaseAvailableFrames_Locked :: "nat \<Rightarrow> EvsV4lCamera \<Rightarrow> nat \<times> EvsV4lCamera" where
  "decreaseAvailableFrames_Locked numToRemove st =
     (let (rs, freed, removed) = releaseBuffers numToRemove (mBuffersV4l st) 0
      in (removed,
          st\<lparr>mBuffersV4l := rs, allocFreed := allocFreed st @ freed,
             mFramesAllowed := mFramesAllowed st - of_nat removed\<rparr>))"

definition setAvailableFrames_Locked :: "u32 \<Rightarrow> EvsV4lCamera \<Rightarrow> bool \<times> EvsV4lCamera" where
  "setAvailableFrames_Locked bufferCount st =
     (if bufferCount < 1 then (False, st)
      else if MAX_BUFFERS_IN_FLIGHT < bufferCount then (False, st)
      else if mFramesAllowed st < bufferCount
      then
        let needed = unat (bufferCount - mFramesAllowed st);
            (added, st1) = increaseAvailableFrames_Locked needed st
        in if added \<noteq> needed
           then (False, snd (decreaseAvailableFrames_Locked added st1))
           else (True, st1)
      else if bufferCount < mFramesAllowed st
      then
        let framesToRelease = unat (mFramesAllowed st - bufferCount)
        in (True, snd (decreaseAvailableFrames_Locked framesToRelease st))
      else (True, st))"

definition setMaxFramesInFlight :: "u32 \<Rightarrow> EvsV4lCamera \<Rightarrow> EvsResult \<times> EvsV4lCamera" where
  "setMaxFramesInFlight bufferCount st =
     (if \<not> videoIsOpen st then (OWNERSHIP_LOST, st)
      else if bufferCount < 1 then (INVALID_ARG, st)
      else
        let (ok, st1) = setAvailableFrames_Locked bufferCount st
        in if ok then (OK, st1) else (BUFFER_NOT_AVAILABLE, st1))"


text \<open>The number of records that hold a buffer which is not in use.\<close>

definition idleBuffers :: "BufferRecord list \<Rightarrow> nat" where
  "idleBuffers rs = length (filter (\<lambda>r. \<not> inUse r \<and> handle r \<noteq> None) rs)"


subsection \<open>Create: choosing the stream configuration\<close>

text \<open>
  A \<open>RawStreamConfiguration\<close> is the array of six \<open>int32_t\<close> values (id, width, height,
  format, direction, fps), indexed 0 to 5 in the source. The requested \<open>Stream\<close> has
  \<open>uint32_t\<close> width and height. Values are integers here and the conversions of the
  source are written out: an \<open>int32_t\<close> compared with a \<open>uint32_t\<close> is first converted
  to \<open>uint32_t\<close>, and the product of two \<open>int32_t\<close> is an \<open>int32_t\<close>.
\<close>

record RawStreamConfiguration =
  cfg_id :: int
  cfg_width :: int
  cfg_height :: int
  cfg_format :: int
  cfg_direction :: int
  cfg_fps :: int

record Stream =
  stream_width :: int
  stream_height :: int
  stream_format :: int

definition to_uint32 :: "int \<Rightarrow> int" where
  "to_uint32 x = x mod 2 ^ 32"

definition to_int32 :: "int \<Rightarrow> int" where
  "to_int32 x = (x + 2 ^ 31) mod 2 ^ 32 - 2 ^ 31"

definition INT_MIN :: int where
  "INT_MIN = - (2 ^ 31)"

definition HAL_PIXEL_FORMAT_RGBA_8888 :: int where
  "HAL_PIXEL_FORMAT_RGBA_8888 = 1"

definition kDefaultResolution :: "int \<times> int" where
  "kDefaultResolution = (640, 480)"

text \<open>
  The loop over \<open>camInfo->streamConfigurations\<close>, in the order the map is iterated,
  with the variables \<open>streamId\<close> and \<open>area\<close>; an exact match ends the loop.
\<close>

fun selectStream ::
  "Stream \<Rightarrow> (int \<times> RawStreamConfiguration) list \<Rightarrow> int \<times> int \<Rightarrow> int \<times> int" where
  "selectStream req [] (streamId, area) = (streamId, area)"
| "selectStream req ((i, cfg) # rest) (streamId, area) =
     (if to_uint32 (cfg_format cfg) = to_uint32 (stream_format req)
      then
        if to_uint32 (cfg_width cfg) = stream_width req
           \<and> to_uint32 (cfg_height cfg) = stream_height req
        then (i, area)
        else if to_uint32 (cfg_width cfg) < stream_width req
           \<and> to_uint32 (cfg_height cfg) < stream_height req
           \<and> area < to_int32 (cfg_width cfg * cfg_height cfg)
        then selectStream req rest (i, to_int32 (cfg_width cfg * cfg_height cfg))
        else selectStream req rest (streamId, area)
      else selectStream req rest (streamId, area))"

text \<open>
  \<open>streamConfigurations[streamId]\<close>: \<open>operator[]\<close> of the map yields the entry of the
  key, or a fresh zero-initialised one when the key is absent.
\<close>

definition defaultRawStreamConfiguration :: RawStreamConfiguration where
  "defaultRawStreamConfiguration =
     \<lparr>cfg_id = 0, cfg_width = 0, cfg_height = 0, cfg_format = 0, cfg_direction = 0,
      cfg_fps = 0\<rparr>"

definition streamConfiguration_at ::
  "(int \<times> RawStreamConfiguration) list \<Rightarrow> int \<Rightarrow> RawStreamConfiguration" where
  "streamConfiguration_at cfgs i =
     (case map_of cfgs i of Some cfg \<Rightarrow> cfg | None \<Rightarrow> defaultRawStreamConfiguration)"

text \<open>
  What \<open>Create\<close> returns: \<open>None\<close> for \<open>nullptr\<close>, otherwise the geometry the video
  device was opened with and the output format \<open>mFormat\<close>. \<open>video_open w h\<close> is the
  result of \<open>mVideo.open(deviceName, w, h)\<close>. The constructor sets \<open>mFormat\<close> to
  \<open>HAL_PIXEL_FORMAT_RGBA_8888\<close>.
\<close>

record OpenedCamera =
  opened_width :: int
  opened_height :: int
  mFormat :: int

definition Create ::
  "(int \<Rightarrow> int \<Rightarrow> bool) \<Rightarrow> (int \<times> RawStreamConfiguration) list option \<Rightarrow> Stream option
   \<Rightarrow> OpenedCamera option" where
  "Create video_open camInfo requestedStreamCfg =
     (let cam0 = \<lparr>opened_width = 0, opened_height = 0, mFormat = HAL_PIXEL_FORMAT_RGBA_8888\<rparr>;
          (success, cam1) =
            (case (camInfo, requestedStreamCfg) of
               (Some cfgs, Some req) \<Rightarrow>
                 let (streamId, area) = selectStream req cfgs (- 1, INT_MIN)
                 in if 0 \<le> streamId
                    then
                      let cfg = streamConfiguration_at cfgs streamId
                      in (video_open (cfg_width cfg) (cfg_height cfg),
                          \<lparr>opened_width = cfg_width cfg, opened_height = cfg_height cfg,
                           mFormat = to_uint32 (cfg_format cfg)\<rparr>)
                    else (False, cam0)
             | _ \<Rightarrow> (False, cam0))
      in if success then Some cam1
         else if video_open (fst kDefaultResolution) (snd kDefaultResolution)
         then Some (cam1\<lparr>opened_width := fst kDefaultResolution,
                         opened_height := snd kDefaultResolution\<rparr>)
         else None)"


section \<open>Concrete inputs\<close>

text \<open>States and collaborators on which the theorems below are instantiated.\<close>

definition idle_camera :: HalCamera where
  "idle_camera =
     \<lparr>mClients = [], mFrames = [], mMaster = None, mCurrentRequests = [],
      mNextRequests = [], mStreamState = STOPPED, timelineBumps = [],
      hwDoneWithFrame = [], hwMaxFramesInFlight = [], vcDeliverFrame = [], vcNotify = []\<rparr>"

definition demo_collaborators :: Collaborators where
  "demo_collaborators =
     \<lparr>promote = (\<lambda>c. c \<noteq> 3),
      getAllowedBuffers = (\<lambda>c. 2),
      getVersion = (\<lambda>c. if c = 2 then 0 else 1),
      vc_deliverFrame = (\<lambda>k c. True),
      hw_setMaxFramesInFlight = (\<lambda>n. if n \<le> 100 then Some OK else Some BUFFER_NOT_AVAILABLE)\<rparr>"

definition frame7 :: "int \<Rightarrow> BufferDesc_1_1" where
  "frame7 t = \<lparr>bufferId = 7, buf_timestamp = t, nativeHandle = Some 1\<rparr>"

definition demo_camera :: HalCamera where
  "demo_camera =
     idle_camera\<lparr>mClients := [1, 2, 3],
       mFrames := [\<lparr>frameId = 5, refCount = 1\<rparr>, \<lparr>frameId = 6, refCount = 0\<rparr>,
                   \<lparr>frameId = 8, refCount = 2\<rparr>],
       mNextRequests := [\<lparr>client = 1, req_timestamp = 0\<rparr>, \<lparr>client = 4, req_timestamp = 10000\<rparr>,
                         \<lparr>client = 3, req_timestamp = 0\<rparr>]\<rparr>"


text \<open>A broker whose only client is the v1.0 client 2.\<close>

definition legacy_camera :: HalCamera where
  "legacy_camera = idle_camera\<lparr>mClients := [2]\<rparr>"


text \<open>
  The sentence "a pending request of a live client that comes too soon is moved to the
  next cycle, and that client receives no frame delivery in the current cycle" as a
  predicate of one call of \<open>deliverFrame_1_1\<close>: the deliveries of the cycle are the
  calls of \<open>VirtualCamera::deliverFrame\<close> added to the log by the call.
\<close>

definition deferred_client_gets_no_frame ::
  "Collaborators \<Rightarrow> BufferDesc_1_1 \<Rightarrow> HalCamera \<Rightarrow> bool" where
  "deferred_client_gets_no_frame e b st =
     (\<forall>req \<in> set (mNextRequests st).
        promote e (client req) \<and> buf_timestamp b - req_timestamp req < 16000 \<longrightarrow>
          req \<in> set (mNextRequests (deliverFrame_1_1 e b st))
        \<and> client req \<notin> fst ` set (drop (length (vcDeliverFrame st))
                                   (vcDeliverFrame (deliverFrame_1_1 e b st))))"

text \<open>One client with two pending requests; a v1.0 client with a pending request.\<close>

definition two_requests_camera :: HalCamera where
  "two_requests_camera =
     idle_camera\<lparr>mClients := [1],
       mNextRequests := [\<lparr>client = 1, req_timestamp = 10000\<rparr>,
                         \<lparr>client = 1, req_timestamp = 0\<rparr>]\<rparr>"

definition legacy_request_camera :: HalCamera where
  "legacy_request_camera =
     idle_camera\<lparr>mClients := [2],
       mNextRequests := [\<lparr>client = 2, req_timestamp = 10000\<rparr>]\<rparr>"


text \<open>A frame with a non-null handle and the given id.\<close>

definition frame_id :: "nat \<Rightarrow> BufferDesc_1_1" where
  "frame_id n = \<lparr>bufferId = of_nat n, buf_timestamp = 0, nativeHandle = Some n\<rparr>"


text \<open>
  The sentence "getNewFrame returns the held frame unchanged when one is held, and
  otherwise moves the ready slot into the held slot" as a predicate of a state.
\<close>

definition getNewFrame_moves_ready :: "StreamHandler \<Rightarrow> bool" where
  "getNewFrame_moves_ready st =
     ((0 \<le> mHeldBuffer st \<longrightarrow>
         getNewFrame st = (buffer_at (mBuffers st) (mHeldBuffer st), st))
      \<and> (mHeldBuffer st < 0 \<longrightarrow>
         getNewFrame st =
           (buffer_at (mBuffers st) (mReadyBuffer st),
            st\<lparr>mHeldBuffer := mReadyBuffer st, mReadyBuffer := - 1\<rparr>)))"


text \<open>
  An open camera with two idle buffers, whose allocator fails at the next call.
\<close>

definition two_idle_buffers :: EvsV4lCamera where
  "two_idle_buffers =
     \<lparr>videoIsOpen = True, mFramesAllowed = 2, mFramesInUse = 0, mStride = 640,
      mBuffersV4l = [\<lparr>handle = Some 11, inUse = False\<rparr>, \<lparr>handle = Some 12, inUse = False\<rparr>],
      allocResults = [AllocError], allocFreed = []\<rparr>"


text \<open>
  An open camera with one idle buffer, whose allocator yields one buffer and then fails.
\<close>

definition one_idle_buffer :: EvsV4lCamera where
  "one_idle_buffer =
     \<lparr>videoIsOpen = True, mFramesAllowed = 1, mFramesInUse = 0, mStride = 640,
      mBuffersV4l = [\<lparr>handle = Some 11, inUse = False\<rparr>],
      allocResults = [AllocOk (Some 21) 640, AllocError], allocFreed = []\<rparr>"


text \<open>
  The sentence "when no configuration of matching format matches the requested size
  exactly, Create selects the configuration of matching format with the largest area
  among those that fit within the requested bounds" as a predicate: a configuration
  fits when its width and height do not exceed the requested ones.
\<close>

definition create_picks_largest_fitting ::
  "(int \<Rightarrow> int \<Rightarrow> bool) \<Rightarrow> (int \<times> RawStreamConfiguration) list \<Rightarrow> Stream \<Rightarrow> bool" where
  "create_picks_largest_fitting video_open cfgs req =
     ((\<forall>(i, cfg) \<in> set cfgs. cfg_format cfg = stream_format req \<longrightarrow>
          \<not> (cfg_width cfg = stream_width req \<and> cfg_height cfg = stream_height req))
      \<longrightarrow>
      (\<forall>(i, cfg) \<in> set cfgs.
          cfg_format cfg = stream_format req
          \<and> cfg_width cfg \<le> stream_width req \<and> cfg_height cfg \<le> stream_height req \<longrightarrow>
            (case Create video_open (Some cfgs) (Some req) of
               None \<Rightarrow> False
             | Some cam \<Rightarrow>
                 cfg_width cfg * cfg_height cfg \<le> opened_width cam * opened_height cam)))"


text \<open>Stream configurations of a camera and a request for 1280 x 720 in format 1.\<close>

definition rawConfig :: "int \<Rightarrow> int \<Rightarrow> int \<Rightarrow> int \<Rightarrow> int \<times> RawStreamConfiguration" where
  "rawConfig i w h f =
     (i, \<lparr>cfg_id = i, cfg_width = w, cfg_height = h, cfg_format = f, cfg_direction = 0,
          cfg_fps = 30\<rparr>)"

definition hd_request :: Stream where
  "hd_request = \<lparr>stream_width = 1280, stream_height = 720, stream_format = 1\<rparr>"

definition demo_configurations :: "(int \<times> RawStreamConfiguration) list" where
  "demo_configurations =
     [rawConfig 0 1280 480 1, rawConfig 1 640 360 1, rawConfig 2 320 240 1,
      rawConfig 3 1024 600 17]"


section \<open>Theorems: makeVirtualCamera\<close>

text \<open>
  C10. On every call of \<open>HalCamera::makeVirtualCamera\<close>, after \<open>reserve(1)\<close> the vector
  \<open>sourceCameras\<close> has capacity 1 and still size 0, so the write to element 0 is at an
  index that is not below the size: with total indexing the access yields no cell and
  the call takes the error branch, whatever the \<open>this\<close> pointer is.
\<close>

theorem makeVirtualCamera_writes_out_of_bounds:
  "vector_size (vector_reserve 1 (vector_empty :: nat vector)) = 0
   \<and> capacity (vector_reserve 1 (vector_empty :: nat vector)) = 1
   \<and> vector_assign (vector_reserve 1 vector_empty) 0 this = None
   \<and> makeVirtualCamera_sourceCameras this = Inl IndexOutOfBounds"
  by (simp add: makeVirtualCamera_sourceCameras_def vector_assign_def vector_reserve_def
      vector_empty_def vector_size_def)

section \<open>Lemmas: the loops of HalCamera\<close>

lemma countClientBuffers_sum:
  "countClientBuffers e cs n = n + sum_list (map (getAllowedBuffers e) (filter (promote e) cs))"
  by (induction cs arbitrary: n) (simp_all add: add.assoc)

lemma copyActiveRecords_filter:
  "copyActiveRecords rs acc = acc @ filter (\<lambda>r. 0 < refCount r) rs"
  by (induction rs arbitrary: acc) simp_all

lemma forwardEvent_log:
  "forwardEvent e ev cs st =
     st\<lparr>vcNotify := vcNotify st @ map (\<lambda>c. (c, ev)) (filter (promote e) cs)\<rparr>"
  by (induction cs arbitrary: st) simp_all

lemma findFreeRecord_le: "findFreeRecord rs \<le> length rs"
  by (induction rs) simp_all

lemma findFreeRecord_before: "j < findFreeRecord rs \<Longrightarrow> refCount (rs ! j) \<noteq> 0"
  by (induction rs arbitrary: j) (auto simp: nth_Cons' split: if_splits)

lemma findFreeRecord_at: "findFreeRecord rs < length rs \<Longrightarrow> refCount (rs ! findFreeRecord rs) = 0"
  by (induction rs) (auto split: if_splits)

lemma findFrame_le: "findFrame b rs \<le> length rs"
  by (induction rs) simp_all

lemma findFrame_before: "j < findFrame b rs \<Longrightarrow> frameId (rs ! j) \<noteq> b"
  by (induction rs arbitrary: j) (auto simp: nth_Cons' split: if_splits)

lemma findFrame_at: "findFrame b rs < length rs \<Longrightarrow> frameId (rs ! findFrame b rs) = b"
  by (induction rs) (auto split: if_splits)


lemma processRequests_next:
  "mNextRequests (fst (processRequests e b reqs (st, k))) =
     mNextRequests st @
       filter (\<lambda>r. promote e (client r) \<and> buf_timestamp b - req_timestamp r < kThreshold) reqs"
  by (induction reqs arbitrary: st k) (simp_all add: Let_def)

lemma processRequests_unchanged:
  "mFrames (fst (processRequests e b reqs (st, k))) = mFrames st
   \<and> mClients (fst (processRequests e b reqs (st, k))) = mClients st
   \<and> mMaster (fst (processRequests e b reqs (st, k))) = mMaster st
   \<and> mCurrentRequests (fst (processRequests e b reqs (st, k))) = mCurrentRequests st
   \<and> hwDoneWithFrame (fst (processRequests e b reqs (st, k))) = hwDoneWithFrame st"
  by (induction reqs arbitrary: st k) (simp_all add: Let_def)

lemma processRequests_log:
  "\<exists>ws. vcDeliverFrame (fst (processRequests e b reqs (st, k))) = vcDeliverFrame st @ ws
      \<and> map fst ws =
          map client (filter (\<lambda>r. promote e (client r)
                \<and> \<not> buf_timestamp b - req_timestamp r < kThreshold) reqs)
      \<and> snd (processRequests e b reqs (st, k)) = k + of_nat (length (filter snd ws))"
proof (induction reqs arbitrary: st k)
  case Nil
  show ?case by simp
next
  case (Cons req rest)
  show ?case
  proof (cases "promote e (client req) \<and> \<not> buf_timestamp b - req_timestamp req < kThreshold")
    case False
    define st0 where "st0 = (if promote e (client req)
        then st\<lparr>mNextRequests := mNextRequests st @ [req]\<rparr> else st)"
    have step: "processRequests e b (req # rest) (st, k) = processRequests e b rest (st0, k)"
      using False by (auto simp: st0_def)
    have same: "vcDeliverFrame st0 = vcDeliverFrame st"
      by (simp add: st0_def)
    show ?thesis
      using Cons.IH [of st0 k] False unfolding step same by auto
  next
    case True
    define acc where "acc = vc_deliverFrame e (length (vcDeliverFrame st)) (client req)"
    define st1 where "st1 = st\<lparr>vcDeliverFrame := vcDeliverFrame st @ [(client req, acc)]\<rparr>"
    define st2 where "st2 = (if acc then st1\<lparr>timelineBumps := timelineBumps st1 @ [client req]\<rparr> else st1)"
    define k2 where "k2 = (if acc then k + 1 else k)"
    have step: "processRequests e b (req # rest) (st, k) = processRequests e b rest (st2, k2)"
      using True by (simp add: Let_def acc_def st1_def st2_def k2_def)
    obtain ws where ws: "vcDeliverFrame (fst (processRequests e b rest (st2, k2))) = vcDeliverFrame st2 @ ws"
      "map fst ws = map client (filter (\<lambda>r. promote e (client r)
                \<and> \<not> buf_timestamp b - req_timestamp r < kThreshold) rest)"
      "snd (processRequests e b rest (st2, k2)) = k2 + of_nat (length (filter snd ws))"
      using Cons.IH [of st2 k2] by blast
    have log2: "vcDeliverFrame st2 = vcDeliverFrame st @ [(client req, acc)]"
      by (simp add: st2_def st1_def)
    show ?thesis
      unfolding step
      apply (rule exI [of _ "(client req, acc) # ws"])
      using True ws log2 by (simp add: k2_def)
  qed
qed

lemma forwardToLegacy_unchanged:
  "mFrames (fst (forwardToLegacy e b cs (st, k))) = mFrames st
   \<and> mClients (fst (forwardToLegacy e b cs (st, k))) = mClients st
   \<and> mMaster (fst (forwardToLegacy e b cs (st, k))) = mMaster st
   \<and> mCurrentRequests (fst (forwardToLegacy e b cs (st, k))) = mCurrentRequests st
   \<and> mNextRequests (fst (forwardToLegacy e b cs (st, k))) = mNextRequests st
   \<and> hwDoneWithFrame (fst (forwardToLegacy e b cs (st, k))) = hwDoneWithFrame st"
  by (induction cs arbitrary: st k) (simp_all add: Let_def)

lemma forwardToLegacy_log:
  "\<exists>ws. vcDeliverFrame (fst (forwardToLegacy e b cs (st, k))) = vcDeliverFrame st @ ws
      \<and> map fst ws = filter (\<lambda>c. promote e c \<and> \<not> 0 < getVersion e c) cs
      \<and> snd (forwardToLegacy e b cs (st, k)) = k + of_nat (length (filter snd ws))"
proof (induction cs arbitrary: st k)
  case Nil
  show ?case by simp
next
  case (Cons c cs)
  show ?case
  proof (cases "promote e c \<and> \<not> 0 < getVersion e c")
    case False
    then have step: "forwardToLegacy e b (c # cs) (st, k) = forwardToLegacy e b cs (st, k)"
      by auto
    show ?thesis
      using Cons.IH [of st k] False unfolding step by auto
  next
    case True
    define acc where "acc = vc_deliverFrame e (length (vcDeliverFrame st)) c"
    define st1 where "st1 = st\<lparr>vcDeliverFrame := vcDeliverFrame st @ [(c, acc)]\<rparr>"
    define k2 where "k2 = (if acc then k + 1 else k)"
    have step: "forwardToLegacy e b (c # cs) (st, k) = forwardToLegacy e b cs (st1, k2)"
      using True by (simp add: Let_def acc_def st1_def k2_def)
    obtain ws where ws: "vcDeliverFrame (fst (forwardToLegacy e b cs (st1, k2))) = vcDeliverFrame st1 @ ws"
      "map fst ws = filter (\<lambda>c. promote e c \<and> \<not> 0 < getVersion e c) cs"
      "snd (forwardToLegacy e b cs (st1, k2)) = k2 + of_nat (length (filter snd ws))"
      using Cons.IH [of st1 k2] by blast
    show ?thesis
      unfolding step
      apply (rule exI [of _ "(c, acc) # ws"])
      using True ws by (simp add: k2_def st1_def)
  qed
qed

lemma FrameRecord_overwrite:
  "(r :: FrameRecord)\<lparr>frameId := a, refCount := c\<rparr> = \<lparr>frameId = a, refCount = c\<rparr>"
  by (cases r) simp

lemma trackFrame_none:
  "trackFrame b 0 st = st\<lparr>hwDoneWithFrame := hwDoneWithFrame st @ [bufferId b]\<rparr>"
  by (simp add: trackFrame_def)

lemma trackFrame_some:
  assumes "fd \<noteq> 0"
  shows "hwDoneWithFrame (trackFrame b fd st) = hwDoneWithFrame st"
    and "findFreeRecord (mFrames st) < length (mFrames st) \<Longrightarrow>
           mFrames (trackFrame b fd st) =
             (mFrames st)[findFreeRecord (mFrames st) := \<lparr>frameId = bufferId b, refCount = fd\<rparr>]"
    and "\<not> findFreeRecord (mFrames st) < length (mFrames st) \<Longrightarrow>
           mFrames (trackFrame b fd st) =
             mFrames st @ [\<lparr>frameId = bufferId b, refCount = fd\<rparr>]"
    and "vcDeliverFrame (trackFrame b fd st) = vcDeliverFrame st"
    and "mNextRequests (trackFrame b fd st) = mNextRequests st"
    and "mCurrentRequests (trackFrame b fd st) = mCurrentRequests st"
proof -
  show "hwDoneWithFrame (trackFrame b fd st) = hwDoneWithFrame st"
    using assms by (simp add: trackFrame_def Let_def)
  show "mFrames (trackFrame b fd st) =
             (mFrames st)[findFreeRecord (mFrames st) := \<lparr>frameId = bufferId b, refCount = fd\<rparr>]"
    if "findFreeRecord (mFrames st) < length (mFrames st)"
    using assms that by (simp add: trackFrame_def Let_def FrameRecord_overwrite)
  show "mFrames (trackFrame b fd st) =
             mFrames st @ [\<lparr>frameId = bufferId b, refCount = fd\<rparr>]"
    if "\<not> findFreeRecord (mFrames st) < length (mFrames st)"
  proof -
    from that findFreeRecord_le [of "mFrames st"]
    have eq: "findFreeRecord (mFrames st) = length (mFrames st)" by simp
    show ?thesis using assms by (simp add: trackFrame_def Let_def eq)
  qed
  show "vcDeliverFrame (trackFrame b fd st) = vcDeliverFrame st"
    by (simp add: trackFrame_def Let_def)
  show "mNextRequests (trackFrame b fd st) = mNextRequests st"
    by (simp add: trackFrame_def Let_def)
  show "mCurrentRequests (trackFrame b fd st) = mCurrentRequests st"
    by (simp add: trackFrame_def Let_def)
qed

lemma deliverFrame_1_1_phases:
  "\<exists>ws1 ws2 mid.
      deliverFrame_1_1 e b st =
        trackFrame b (of_nat (length (filter snd ws2)) + of_nat (length (filter snd ws1))) mid
    \<and> map fst ws1 = map client (filter (\<lambda>r. promote e (client r)
                \<and> \<not> buf_timestamp b - req_timestamp r < kThreshold) (mNextRequests st))
    \<and> map fst ws2 = filter (\<lambda>c. promote e c \<and> \<not> 0 < getVersion e c) (mClients st)
    \<and> vcDeliverFrame mid = vcDeliverFrame st @ ws1 @ ws2
    \<and> mFrames mid = mFrames st
    \<and> hwDoneWithFrame mid = hwDoneWithFrame st
    \<and> mCurrentRequests mid = []
    \<and> mNextRequests mid = mCurrentRequests st @
         filter (\<lambda>r. promote e (client r) \<and> buf_timestamp b - req_timestamp r < kThreshold)
           (mNextRequests st)"
proof -
  define sw where "sw = st\<lparr>mNextRequests := mCurrentRequests st, mCurrentRequests := []\<rparr>"
  define p1 where "p1 = processRequests e b (mNextRequests st) (sw, 0)"
  define p2 where "p2 = forwardToLegacy e b (mClients (fst p1)) (fst p1, 0)"
  have unfold: "deliverFrame_1_1 e b st = trackFrame b (snd p2 + snd p1) (fst p2)"
    by (simp add: deliverFrame_1_1_def Let_def p2_def p1_def sw_def split_beta)
  obtain ws1 where ws1: "vcDeliverFrame (fst p1) = vcDeliverFrame sw @ ws1"
    "map fst ws1 = map client (filter (\<lambda>r. promote e (client r)
                \<and> \<not> buf_timestamp b - req_timestamp r < kThreshold) (mNextRequests st))"
    "snd p1 = 0 + of_nat (length (filter snd ws1))"
    unfolding p1_def using processRequests_log [of e b "mNextRequests st" sw 0] by blast
  obtain ws2 where ws2: "vcDeliverFrame (fst p2) = vcDeliverFrame (fst p1) @ ws2"
    "map fst ws2 = filter (\<lambda>c. promote e c \<and> \<not> 0 < getVersion e c) (mClients (fst p1))"
    "snd p2 = 0 + of_nat (length (filter snd ws2))"
    unfolding p2_def using forwardToLegacy_log [of e b "mClients (fst p1)" "fst p1" 0] by blast
  have u1: "mFrames (fst p1) = mFrames sw" "mClients (fst p1) = mClients sw"
     "mCurrentRequests (fst p1) = mCurrentRequests sw"
     "hwDoneWithFrame (fst p1) = hwDoneWithFrame sw"
    unfolding p1_def using processRequests_unchanged [of e b "mNextRequests st" sw 0] by simp_all
  have n1: "mNextRequests (fst p1) = mNextRequests sw @
         filter (\<lambda>r. promote e (client r) \<and> buf_timestamp b - req_timestamp r < kThreshold)
           (mNextRequests st)"
    unfolding p1_def by (rule processRequests_next)
  have u2: "mFrames (fst p2) = mFrames (fst p1)"
     "mCurrentRequests (fst p2) = mCurrentRequests (fst p1)"
     "mNextRequests (fst p2) = mNextRequests (fst p1)"
     "hwDoneWithFrame (fst p2) = hwDoneWithFrame (fst p1)"
    unfolding p2_def using forwardToLegacy_unchanged [of e b "mClients (fst p1)" "fst p1" 0]
    by simp_all
  show ?thesis
    apply (rule exI [of _ ws1], rule exI [of _ ws2], rule exI [of _ "fst p2"])
    using ws1 ws2 u1 u2 n1 by (simp add: unfold sw_def)
qed

lemma accept_count_word:
  assumes "n < 2 ^ 32"
  shows "unat (word_of_nat n :: u32) = n" and "(word_of_nat n :: u32) = 0 \<longleftrightarrow> n = 0"
proof -
  show u: "unat (word_of_nat n :: u32) = n"
    using assms by (simp add: unat_of_nat take_bit_nat_eq_self)
  show "(word_of_nat n :: u32) = 0 \<longleftrightarrow> n = 0"
  proof
    assume "(word_of_nat n :: u32) = 0"
    then have "unat (word_of_nat n :: u32) = 0" by simp
    with u show "n = 0" by simp
  next
    assume "n = 0"
    then show "(word_of_nat n :: u32) = 0" by simp
  qed
qed


text \<open>The unsigned sum and clamp, read as integers.\<close>

lemma sum_list_u32:
  "sum_list (map f xs) = (word_of_nat (sum_list (map (\<lambda>x. unat (f x)) xs)) :: u32)"
  by (induction xs) simp_all

lemma uint_u32_of_int: "0 \<le> k \<Longrightarrow> k < 2 ^ 32 \<Longrightarrow> uint (word_of_int k :: u32) = k"
  by (simp add: uint_word_of_int_eq take_bit_int_eq_self)

lemma total_as_integer:
  "sum_list (map (getAllowedBuffers e) cs) + word_of_int delta =
     (word_of_int (int (sum_list (map (\<lambda>c. unat (getAllowedBuffers e c)) cs)) + delta) :: u32)"
  by (simp add: sum_list_u32 [of "getAllowedBuffers e" cs])

lemma clamp_u32:
  assumes "0 \<le> k" "k < 2 ^ 32"
  shows "uint (if (word_of_int k :: u32) < 1 then 1 else (word_of_int k :: u32)) = max 1 k"
proof (cases "k = 0")
  case True
  then show ?thesis by simp
next
  case False
  with assms have "1 \<le> k" by simp
  have u: "uint (word_of_int k :: u32) = k"
    using assms by (rule uint_u32_of_int)
  have "(word_of_int k :: u32) \<noteq> 0"
  proof
    assume "(word_of_int k :: u32) = 0"
    then have "uint (word_of_int k :: u32) = 0" by simp
    with u False show False by simp
  qed
  then show ?thesis
    using u \<open>1 \<le> k\<close> by simp
qed


section \<open>Theorems: changeFramesInFlight\<close>

text \<open>
  The general behaviour of \<open>changeFramesInFlight(delta)\<close>, for every total that the
  \<open>unsigned\<close> counter of the source can hold. The function adds up \<open>allowedBuffers\<close>
  over the clients that are still alive and adds \<open>delta\<close>, in the \<open>unsigned\<close> arithmetic
  of the source; whenever the integer sum lies between 0 and \<open>2^32 - 1\<close> the counter
  holds that sum, is raised to at least 1, and that many buffers are requested from
  the device. The function returns success exactly when the device answers \<open>OK\<close>. When
  the device refuses, the frame records are left as they were; when it agrees, they are
  replaced by exactly the records with \<open>refCount > 0\<close>, in their order, none of them
  dropped whatever the new count is. The client list, the master and the request queues
  are not touched. A negative integer sum is outside this statement; the code's
  behaviour there is evaluated below.
\<close>

theorem changeFramesInFlight_spec:
  "(let total = sum_list (map (getAllowedBuffers e) (filter (promote e) (mClients st)))
                 + word_of_int delta;
        bufferCount = (if total < 1 then 1 else total);
        success = fst (changeFramesInFlight e delta st);
        st' = snd (changeFramesInFlight e delta st);
        wanted = int (sum_list (map (\<lambda>c. unat (getAllowedBuffers e c))
                   (filter (promote e) (mClients st)))) + delta
    in 1 \<le> bufferCount
     \<and> (0 \<le> wanted \<and> wanted < 2 ^ 32 \<longrightarrow> uint bufferCount = max 1 wanted)
     \<and> hwMaxFramesInFlight st' = hwMaxFramesInFlight st @ [bufferCount]
     \<and> (success \<longleftrightarrow> hw_setMaxFramesInFlight e bufferCount = Some OK)
     \<and> (\<not> success \<longrightarrow> mFrames st' = mFrames st)
     \<and> (success \<longrightarrow> mFrames st' = filter (\<lambda>r. 0 < refCount r) (mFrames st)
                   \<and> (\<forall>r \<in> set (mFrames st). 0 < refCount r \<longrightarrow> r \<in> set (mFrames st')))
     \<and> mClients st' = mClients st \<and> mMaster st' = mMaster st
     \<and> mCurrentRequests st' = mCurrentRequests st \<and> mNextRequests st' = mNextRequests st)"
proof -
  have one: "(1::u32) \<le> (if t < 1 then 1 else t)" for t :: u32
  proof (cases "t < 1")
    case True
    then show ?thesis by (simp only: if_True order_refl)
  next
    case False
    then have "1 \<le> t" by (simp only: not_less)
    with False show ?thesis by (simp only: if_False)
  qed
  define wanted where "wanted = int (sum_list (map (\<lambda>c. unat (getAllowedBuffers e c))
                   (filter (promote e) (mClients st)))) + delta"
  have total: "sum_list (map (getAllowedBuffers e) (filter (promote e) (mClients st)))
                 + word_of_int delta = (word_of_int wanted :: u32)"
    unfolding wanted_def by (rule total_as_integer)
  have exact: "uint (if (word_of_int wanted :: u32) < 1 then 1 else (word_of_int wanted :: u32))
      = max 1 wanted" if "0 \<le> wanted \<and> wanted < 2 ^ 32"
    using that clamp_u32 [of wanted] by simp
  define total where "total = sum_list (map (getAllowedBuffers e) (filter (promote e) (mClients st)))
                 + word_of_int delta"
  have extra: "0 \<le> wanted \<and> wanted < 2 ^ 32 \<longrightarrow>
      uint (if total < 1 then 1 else total) = max 1 wanted"
  proof
    assume a: "0 \<le> wanted \<and> wanted < 2 ^ 32"
    have t: "total = word_of_int wanted"
      using total by (simp only: total_def)
    show "uint (if total < 1 then 1 else total) = max 1 wanted"
      unfolding t by (rule exact [OF a])
  qed
  have base: "1 \<le> (if total < 1 then 1 else total)
     \<and> hwMaxFramesInFlight (snd (changeFramesInFlight e delta st))
          = hwMaxFramesInFlight st @ [if total < 1 then 1 else total]
     \<and> (fst (changeFramesInFlight e delta st) \<longleftrightarrow>
          hw_setMaxFramesInFlight e (if total < 1 then 1 else total) = Some OK)
     \<and> (\<not> fst (changeFramesInFlight e delta st) \<longrightarrow>
          mFrames (snd (changeFramesInFlight e delta st)) = mFrames st)
     \<and> (fst (changeFramesInFlight e delta st) \<longrightarrow>
          mFrames (snd (changeFramesInFlight e delta st))
            = filter (\<lambda>r. 0 < refCount r) (mFrames st)
          \<and> (\<forall>r \<in> set (mFrames st). 0 < refCount r \<longrightarrow>
                r \<in> set (mFrames (snd (changeFramesInFlight e delta st)))))
     \<and> mClients (snd (changeFramesInFlight e delta st)) = mClients st
     \<and> mMaster (snd (changeFramesInFlight e delta st)) = mMaster st
     \<and> mCurrentRequests (snd (changeFramesInFlight e delta st)) = mCurrentRequests st
     \<and> mNextRequests (snd (changeFramesInFlight e delta st)) = mNextRequests st"
    unfolding total_def Let_def changeFramesInFlight_def countClientBuffers_sum
      copyActiveRecords_filter
    using one by simp
  show ?thesis
    unfolding Let_def total_def [symmetric] wanted_def [symmetric]
    using base extra by simp
qed

theorem changeFramesInFlight_spec_witness:
  "fst (changeFramesInFlight demo_collaborators 0 (demo_camera\<lparr>mClients := []\<rparr>))
   \<and> hwMaxFramesInFlight (snd (changeFramesInFlight demo_collaborators 0
         (demo_camera\<lparr>mClients := []\<rparr>))) = [1]
   \<and> mFrames (snd (changeFramesInFlight demo_collaborators 0 (demo_camera\<lparr>mClients := []\<rparr>)))
        = [\<lparr>frameId = 5, refCount = 1\<rparr>, \<lparr>frameId = 8, refCount = 2\<rparr>]
   \<and> \<not> fst (changeFramesInFlight demo_collaborators 97 demo_camera)
   \<and> hwMaxFramesInFlight (snd (changeFramesInFlight demo_collaborators 97 demo_camera)) = [101]
   \<and> mFrames (snd (changeFramesInFlight demo_collaborators 97 demo_camera)) = mFrames demo_camera"
  using changeFramesInFlight_spec [of demo_collaborators "demo_camera\<lparr>mClients := []\<rparr>" 0]
    changeFramesInFlight_spec [of demo_collaborators demo_camera 97]
  by (simp add: Let_def demo_collaborators_def demo_camera_def idle_camera_def)

lemma u32_max_unat: "unat (- 1 :: u32) = 4294967295"
  by (simp add: unsigned_minus_1_eq_mask mask_eq_exp_minus_1)

text \<open>
  C4. \<open>changeFramesInFlight(delta)\<close> is to request from the device the sum of
  \<open>allowedBuffers\<close> over the live clients plus \<open>delta\<close>, raised to at least 1; the source
  says so itself (comment \<open>Never drop below 1 buffer\<close>, line 119). The code does not do this
  when the sum is negative. The camera \<open>demo_camera\<close> has the clients 1, 2 and 3, of which
  1 and 2 are alive with two buffers each, so the live clients add up to 4. With
  \<open>delta = -5\<close> the sum is \<open>-1\<close> and one buffer should be requested, which this device
  would grant. In the code \<open>bufferCount\<close> is \<open>unsigned\<close>: \<open>bufferCount += delta\<close> (line 117)
  wraps to 4294967295, the test \<open>bufferCount < 1\<close> (line 120) does not fire, 4294967295
  buffers are requested, the device refuses, and the call reports failure with the
  frame records left as they were.
\<close>

theorem changeFramesInFlight_negative_total_wraps:
  "sum_list (map (getAllowedBuffers demo_collaborators)
       (filter (promote demo_collaborators) (mClients demo_camera))) = 4
   \<and> map unat (hwMaxFramesInFlight
          (snd (changeFramesInFlight demo_collaborators (- 5) demo_camera))) = [4294967295]
   \<and> hw_setMaxFramesInFlight demo_collaborators 4294967295 = Some BUFFER_NOT_AVAILABLE
   \<and> hw_setMaxFramesInFlight demo_collaborators 1 = Some OK
   \<and> fst (changeFramesInFlight demo_collaborators (- 5) demo_camera) = False
   \<and> mFrames (snd (changeFramesInFlight demo_collaborators (- 5) demo_camera))
        = mFrames demo_camera"
  by (simp add: changeFramesInFlight_def Let_def demo_collaborators_def demo_camera_def
      idle_camera_def word_le_nat_alt word_less_nat_alt u32_max_unat)


section \<open>Theorems: deliverFrame_1_1\<close>

text \<open>
  C2. After the broker has processed one delivered frame: the calls of
  \<open>VirtualCamera::deliverFrame\<close> it made are those for the pending requests that are
  alive and not too soon, then those for the live v1.0 clients. If none of these calls
  accepted, the frame is handed back to the device at once and the frame records are
  unchanged. Otherwise nothing is handed back, and a record with the frame's id and
  a \<open>refCount\<close> equal to the number of accepting calls is stored in the first slot whose
  \<open>refCount\<close> is 0, or appended when there is no such slot. (The counters are
  \<open>unsigned\<close>, so the queues are taken to hold fewer than \<open>2^32\<close> entries.)
\<close>

theorem deliverFrame_1_1_tracks_frame:
  assumes small: "length (mNextRequests st) + length (mClients st) < 2 ^ 32"
  shows "\<exists>calls i.
      vcDeliverFrame (deliverFrame_1_1 e b st) = vcDeliverFrame st @ calls
    \<and> map fst calls =
        map client (filter (\<lambda>r. promote e (client r)
              \<and> \<not> buf_timestamp b - req_timestamp r < kThreshold) (mNextRequests st))
        @ filter (\<lambda>c. promote e c \<and> \<not> 0 < getVersion e c) (mClients st)
    \<and> (length (filter snd calls) = 0 \<longrightarrow>
          hwDoneWithFrame (deliverFrame_1_1 e b st) = hwDoneWithFrame st @ [bufferId b]
        \<and> mFrames (deliverFrame_1_1 e b st) = mFrames st)
    \<and> (0 < length (filter snd calls) \<longrightarrow>
          hwDoneWithFrame (deliverFrame_1_1 e b st) = hwDoneWithFrame st
        \<and> i \<le> length (mFrames st)
        \<and> (\<forall>j < i. refCount (mFrames st ! j) \<noteq> 0)
        \<and> (i < length (mFrames st) \<longrightarrow>
              refCount (mFrames st ! i) = 0
            \<and> mFrames (deliverFrame_1_1 e b st) =
                (mFrames st)[i := \<lparr>frameId = bufferId b,
                                 refCount = word_of_nat (length (filter snd calls))\<rparr>])
        \<and> (i = length (mFrames st) \<longrightarrow>
              mFrames (deliverFrame_1_1 e b st) =
                mFrames st @ [\<lparr>frameId = bufferId b,
                               refCount = word_of_nat (length (filter snd calls))\<rparr>])
        \<and> unat (word_of_nat (length (filter snd calls)) :: u32) = length (filter snd calls))"
proof -
  obtain ws1 ws2 mid where ph:
    "deliverFrame_1_1 e b st =
        trackFrame b (of_nat (length (filter snd ws2)) + of_nat (length (filter snd ws1))) mid"
    "map fst ws1 = map client (filter (\<lambda>r. promote e (client r)
                \<and> \<not> buf_timestamp b - req_timestamp r < kThreshold) (mNextRequests st))"
    "map fst ws2 = filter (\<lambda>c. promote e c \<and> \<not> 0 < getVersion e c) (mClients st)"
    "vcDeliverFrame mid = vcDeliverFrame st @ ws1 @ ws2"
    "mFrames mid = mFrames st"
    "hwDoneWithFrame mid = hwDoneWithFrame st"
    using deliverFrame_1_1_phases [of e b st] by blast
  define calls where "calls = ws1 @ ws2"
  define n where "n = length (filter snd calls)"
  define i where "i = findFreeRecord (mFrames st)"
  have "length ws1 = length (map fst ws1)" "length ws2 = length (map fst ws2)"
    by simp_all
  then have "length ws1 \<le> length (mNextRequests st)" "length ws2 \<le> length (mClients st)"
    unfolding ph(2,3) by simp_all
  then have "length calls < 2 ^ 32"
    using small by (simp add: calls_def)
  moreover have "n \<le> length calls"
    by (simp add: n_def)
  ultimately have n_small: "n < 2 ^ 32" by simp
  have fd: "of_nat (length (filter snd ws2)) + of_nat (length (filter snd ws1)) = (word_of_nat n :: u32)"
    by (simp add: n_def calls_def)
  have run: "deliverFrame_1_1 e b st = trackFrame b (word_of_nat n) mid"
    using ph(1) fd by simp
  have log: "vcDeliverFrame (deliverFrame_1_1 e b st) = vcDeliverFrame st @ calls"
    by (simp add: run trackFrame_def Let_def ph(4) calls_def)
  have who: "map fst calls =
        map client (filter (\<lambda>r. promote e (client r)
              \<and> \<not> buf_timestamp b - req_timestamp r < kThreshold) (mNextRequests st))
        @ filter (\<lambda>c. promote e c \<and> \<not> 0 < getVersion e c) (mClients st)"
    by (simp add: calls_def ph(2,3))
  have zero: "hwDoneWithFrame (deliverFrame_1_1 e b st) = hwDoneWithFrame st @ [bufferId b]
        \<and> mFrames (deliverFrame_1_1 e b st) = mFrames st" if "n = 0"
    using that by (simp add: run trackFrame_none ph(5,6))
  have pos: "hwDoneWithFrame (deliverFrame_1_1 e b st) = hwDoneWithFrame st
        \<and> i \<le> length (mFrames st)
        \<and> (\<forall>j < i. refCount (mFrames st ! j) \<noteq> 0)
        \<and> (i < length (mFrames st) \<longrightarrow>
              refCount (mFrames st ! i) = 0
            \<and> mFrames (deliverFrame_1_1 e b st) =
                (mFrames st)[i := \<lparr>frameId = bufferId b, refCount = word_of_nat n\<rparr>])
        \<and> (i = length (mFrames st) \<longrightarrow>
              mFrames (deliverFrame_1_1 e b st) =
                mFrames st @ [\<lparr>frameId = bufferId b, refCount = word_of_nat n\<rparr>])
        \<and> unat (word_of_nat n :: u32) = n" if "0 < n"
  proof -
    from that n_small have nz: "(word_of_nat n :: u32) \<noteq> 0"
      by (simp add: accept_count_word(2))
    have a: "hwDoneWithFrame (deliverFrame_1_1 e b st) = hwDoneWithFrame st"
      by (simp add: run trackFrame_some(1) [OF nz] ph(6))
    have b: "i \<le> length (mFrames st)"
      by (simp add: i_def findFreeRecord_le)
    have c: "\<forall>j < i. refCount (mFrames st ! j) \<noteq> 0"
      by (simp add: i_def findFreeRecord_before)
    have d: "refCount (mFrames st ! i) = 0
            \<and> mFrames (deliverFrame_1_1 e b st) =
                (mFrames st)[i := \<lparr>frameId = bufferId b, refCount = word_of_nat n\<rparr>]"
      if "i < length (mFrames st)"
      using that trackFrame_some(2) [OF nz, of mid b] findFreeRecord_at [of "mFrames st"]
      by (simp add: run i_def ph(5))
    have f: "mFrames (deliverFrame_1_1 e b st) =
                mFrames st @ [\<lparr>frameId = bufferId b, refCount = word_of_nat n\<rparr>]"
      if "i = length (mFrames st)"
      using that trackFrame_some(3) [OF nz, of mid b]
      by (simp add: run i_def ph(5))
    show ?thesis
      using a b c d f accept_count_word(1) [OF n_small] by blast
  qed
  show ?thesis
    apply (rule exI [of _ calls], rule exI [of _ i])
    using log who zero pos unfolding n_def by blast
qed

theorem deliverFrame_1_1_tracks_frame_witness:
  "length (mNextRequests demo_camera) + length (mClients demo_camera) < 2 ^ 32
   \<and> vcDeliverFrame (deliverFrame_1_1 demo_collaborators (frame7 20000) demo_camera)
        = [(1, True), (2, True)]
   \<and> mFrames (deliverFrame_1_1 demo_collaborators (frame7 20000) demo_camera)
        = [\<lparr>frameId = 5, refCount = 1\<rparr>, \<lparr>frameId = 7, refCount = 2\<rparr>,
           \<lparr>frameId = 8, refCount = 2\<rparr>]
   \<and> hwDoneWithFrame (deliverFrame_1_1 demo_collaborators (frame7 20000) demo_camera) = []"
proof -
  have h: "length (mNextRequests demo_camera) + length (mClients demo_camera) < 2 ^ 32"
    by (simp add: demo_camera_def idle_camera_def)
  from deliverFrame_1_1_tracks_frame [OF h, of demo_collaborators "frame7 20000"] h
  show ?thesis
    by (simp add: deliverFrame_1_1_def trackFrame_def Let_def demo_camera_def idle_camera_def
        demo_collaborators_def frame7_def kThreshold_def)
qed


text \<open>
  C3 (as stated). The claim also says that the client of a deferred request receives no
  frame delivery in the current cycle. That fails when the same client has another
  pending request that is old enough, and when the client is a v1.0 client, which the
  unconditional fan-out serves: both inputs below have a live client with a request
  that comes too soon (\<open>20000 - 10000 < 16000\<close>), and the client is delivered
  the frame.
\<close>

theorem deferred_client_still_served:
  "\<not> deferred_client_gets_no_frame demo_collaborators (frame7 20000) two_requests_camera
   \<and> \<not> deferred_client_gets_no_frame demo_collaborators (frame7 20000) legacy_request_camera"
  by (simp add: deferred_client_gets_no_frame_def two_requests_camera_def
      legacy_request_camera_def deliverFrame_1_1_def trackFrame_def Let_def idle_camera_def
      demo_collaborators_def frame7_def kThreshold_def)


text \<open>
  C3 (amended). In one call of \<open>deliverFrame_1_1\<close>, with the threshold of 16000
  microseconds, every pending request whose client is alive and for which the frame's
  timestamp minus the request's timestamp is below the threshold is pushed unchanged
  onto the next-cycle queue, which after the call holds exactly these requests after
  what the other queue held; the current queue is left empty. The deliveries of the
  cycle go to the clients of the pending requests that are alive and not too soon, and
  to the live v1.0 clients. So the client of a deferred request receives no delivery
  in the cycle provided all its pending requests come too soon and it is not a v1.0
  member of the client list.
\<close>

theorem deliverFrame_1_1_defers_request:
  assumes pending: "req \<in> set (mNextRequests st)"
    and alive: "promote e (client req)"
    and soon: "buf_timestamp b - req_timestamp req < kThreshold"
  shows "kThreshold = 16000
    \<and> mCurrentRequests (deliverFrame_1_1 e b st) = []
    \<and> mNextRequests (deliverFrame_1_1 e b st) =
        mCurrentRequests st @
          filter (\<lambda>r. promote e (client r) \<and> buf_timestamp b - req_timestamp r < kThreshold)
            (mNextRequests st)
    \<and> req \<in> set (mNextRequests (deliverFrame_1_1 e b st))
    \<and> map fst (drop (length (vcDeliverFrame st)) (vcDeliverFrame (deliverFrame_1_1 e b st))) =
        map client (filter (\<lambda>r. promote e (client r)
              \<and> \<not> buf_timestamp b - req_timestamp r < kThreshold) (mNextRequests st))
        @ filter (\<lambda>c. promote e c \<and> \<not> 0 < getVersion e c) (mClients st)
    \<and> ((\<forall>r \<in> set (mNextRequests st).
            client r = client req \<longrightarrow> buf_timestamp b - req_timestamp r < kThreshold)
         \<and> (client req \<in> set (mClients st) \<longrightarrow> 0 < getVersion e (client req))
        \<longrightarrow> client req \<notin> fst ` set (drop (length (vcDeliverFrame st))
                                      (vcDeliverFrame (deliverFrame_1_1 e b st))))"
proof -
  obtain ws1 ws2 mid where ph:
    "deliverFrame_1_1 e b st =
        trackFrame b (of_nat (length (filter snd ws2)) + of_nat (length (filter snd ws1))) mid"
    "map fst ws1 = map client (filter (\<lambda>r. promote e (client r)
                \<and> \<not> buf_timestamp b - req_timestamp r < kThreshold) (mNextRequests st))"
    "map fst ws2 = filter (\<lambda>c. promote e c \<and> \<not> 0 < getVersion e c) (mClients st)"
    "vcDeliverFrame mid = vcDeliverFrame st @ ws1 @ ws2"
    "mCurrentRequests mid = []"
    "mNextRequests mid = mCurrentRequests st @
         filter (\<lambda>r. promote e (client r) \<and> buf_timestamp b - req_timestamp r < kThreshold)
           (mNextRequests st)"
    using deliverFrame_1_1_phases [of e b st] by blast
  let ?st' = "deliverFrame_1_1 e b st"
  have cur: "mCurrentRequests ?st' = []"
    by (simp add: ph(1) trackFrame_def Let_def ph(5))
  have nxt: "mNextRequests ?st' = mCurrentRequests st @
          filter (\<lambda>r. promote e (client r) \<and> buf_timestamp b - req_timestamp r < kThreshold)
            (mNextRequests st)"
    by (simp add: ph(1) trackFrame_def Let_def ph(6))
  have kept: "req \<in> set (mNextRequests ?st')"
    unfolding nxt using pending alive soon by simp
  have log: "vcDeliverFrame ?st' = vcDeliverFrame st @ ws1 @ ws2"
    by (simp add: ph(1) trackFrame_def Let_def ph(4))
  have calls: "drop (length (vcDeliverFrame st)) (vcDeliverFrame ?st') = ws1 @ ws2"
    by (simp add: log)
  have who: "map fst (ws1 @ ws2) =
        map client (filter (\<lambda>r. promote e (client r)
              \<and> \<not> buf_timestamp b - req_timestamp r < kThreshold) (mNextRequests st))
        @ filter (\<lambda>c. promote e c \<and> \<not> 0 < getVersion e c) (mClients st)"
    by (simp add: ph(2,3))
  have none: "client req \<notin> fst ` set (ws1 @ ws2)"
    if only: "\<forall>r \<in> set (mNextRequests st).
            client r = client req \<longrightarrow> buf_timestamp b - req_timestamp r < kThreshold"
      and modern: "client req \<in> set (mClients st) \<longrightarrow> 0 < getVersion e (client req)"
  proof -
    have "fst ` set (ws1 @ ws2) = set (map fst (ws1 @ ws2))"
      by (simp only: set_map)
    also have "\<dots> = client ` {r \<in> set (mNextRequests st). promote e (client r)
              \<and> \<not> buf_timestamp b - req_timestamp r < kThreshold}
            \<union> {c \<in> set (mClients st). promote e c \<and> \<not> 0 < getVersion e c}"
      unfolding who by auto
    finally show ?thesis using only modern by auto
  qed
  show ?thesis
    unfolding calls using cur nxt kept who none by (simp add: kThreshold_def)
qed

theorem deliverFrame_1_1_defers_request_witness:
  "\<lparr>client = 4, req_timestamp = 10000\<rparr> \<in> set (mNextRequests demo_camera)
   \<and> promote demo_collaborators 4
   \<and> buf_timestamp (frame7 20000) - 10000 < kThreshold
   \<and> mNextRequests (deliverFrame_1_1 demo_collaborators (frame7 20000) demo_camera)
        = [\<lparr>client = 4, req_timestamp = 10000\<rparr>]
   \<and> vcDeliverFrame (deliverFrame_1_1 demo_collaborators (frame7 20000) demo_camera)
        = [(1, True), (2, True)]"
proof -
  have p: "\<lparr>client = 4, req_timestamp = 10000\<rparr> \<in> set (mNextRequests demo_camera)"
    by (simp add: demo_camera_def idle_camera_def)
  have a: "promote demo_collaborators (client \<lparr>client = 4, req_timestamp = 10000\<rparr>)"
    by (simp add: demo_collaborators_def)
  have s: "buf_timestamp (frame7 20000) - req_timestamp \<lparr>client = 4, req_timestamp = 10000\<rparr>
             < kThreshold"
    by (simp add: frame7_def kThreshold_def)
  from deliverFrame_1_1_defers_request [OF p a s] p a s
  show ?thesis
    by (simp add: deliverFrame_1_1_def trackFrame_def Let_def demo_camera_def idle_camera_def
        demo_collaborators_def frame7_def kThreshold_def)
qed

section \<open>Theorems: doneWithFrame\<close>

text \<open>
  A release with an id that no record has changes nothing. A release that finds a
  record with a positive count decrements it, and hands the frame back to the device
  exactly when the count was 1, that is when it goes from positive to zero.
\<close>

lemma doneWithFrame_unknown_id:
  assumes "findFrame (bufferId buffer) (mFrames st) = length (mFrames st)"
  shows "doneWithFrame buffer st = st"
  using assms by (simp add: doneWithFrame_def)

lemma doneWithFrame_live_record:
  assumes "findFrame (bufferId buffer) (mFrames st) < length (mFrames st)"
    and "0 < refCount (mFrames st ! findFrame (bufferId buffer) (mFrames st))"
  shows "hwDoneWithFrame (doneWithFrame buffer st) =
           (if refCount (mFrames st ! findFrame (bufferId buffer) (mFrames st)) = 1
            then hwDoneWithFrame st @ [bufferId buffer] else hwDoneWithFrame st)"
    and "refCount (mFrames (doneWithFrame buffer st) ! findFrame (bufferId buffer) (mFrames st))
           = refCount (mFrames st ! findFrame (bufferId buffer) (mFrames st)) - 1"
proof -
  define c where "c = refCount (mFrames st ! findFrame (bufferId buffer) (mFrames st))"
  have "c - 1 = 0 \<longleftrightarrow> c = 1" by auto
  then show "hwDoneWithFrame (doneWithFrame buffer st) =
           (if refCount (mFrames st ! findFrame (bufferId buffer) (mFrames st)) = 1
            then hwDoneWithFrame st @ [bufferId buffer] else hwDoneWithFrame st)"
    using assms by (simp add: doneWithFrame_def Let_def c_def)
  show "refCount (mFrames (doneWithFrame buffer st) ! findFrame (bufferId buffer) (mFrames st))
           = refCount (mFrames st ! findFrame (bufferId buffer) (mFrames st)) - 1"
    using assms by (simp add: doneWithFrame_def Let_def)
qed

text \<open>
  A release that finds a record whose count is already zero decrements it all the
  same: the count wraps to \<open>2^32 - 1\<close> and nothing is handed back to the device.
\<close>

lemma doneWithFrame_stale_record:
  assumes "findFrame (bufferId buffer) (mFrames st) < length (mFrames st)"
    and "refCount (mFrames st ! findFrame (bufferId buffer) (mFrames st)) = 0"
  shows "hwDoneWithFrame (doneWithFrame buffer st) = hwDoneWithFrame st"
    and "refCount (mFrames (doneWithFrame buffer st) ! findFrame (bufferId buffer) (mFrames st))
           = 4294967295"
  using assms by (simp_all add: doneWithFrame_def Let_def)


text \<open>
  With a single record, releases count it down; as long as fewer releases have come
  than the count, nothing is handed back. A record that has reached 0 and is released
  \<open>2^32\<close> more times passes through \<open>2^32 - 1\<close> down to 0 again, and the frame is
  handed back a second time without having been delivered again.
\<close>

lemma doneWithFrame_single_record:
  assumes "mFrames st = [\<lparr>frameId = bufferId f, refCount = c\<rparr>]"
  shows "doneWithFrame f st =
     (if c = 1
      then st\<lparr>mFrames := [\<lparr>frameId = bufferId f, refCount = 0\<rparr>],
              hwDoneWithFrame := hwDoneWithFrame st @ [bufferId f]\<rparr>
      else st\<lparr>mFrames := [\<lparr>frameId = bufferId f, refCount = c - 1\<rparr>]\<rparr>)"
proof -
  have "c - 1 = 0 \<longleftrightarrow> c = 1" by auto
  then show ?thesis
    using assms by (simp add: doneWithFrame_def Let_def)
qed

lemma u32_minus_of_nat:
  fixes c :: u32
  assumes "n \<le> unat c"
  shows "unat (c - word_of_nat n) = unat c - n"
proof -
  have "unat c < 2 ^ 32"
    using unsigned_less [of c, where 'a = nat] by simp
  with assms have n: "n < 2 ^ 32" by simp
  then have un: "unat (word_of_nat n :: u32) = n"
    by (simp add: unat_of_nat take_bit_nat_eq_self)
  then have "(word_of_nat n :: u32) \<le> c"
    using assms by (simp add: word_le_nat_alt)
  then show ?thesis
    using un by (simp add: unat_sub)
qed

lemma doneWithFrame_iterated:
  assumes "mFrames st = [\<lparr>frameId = bufferId f, refCount = c\<rparr>]" and "n < unat c"
  shows "(doneWithFrame f ^^ n) st =
           st\<lparr>mFrames := [\<lparr>frameId = bufferId f, refCount = c - word_of_nat n\<rparr>]\<rparr>"
  using assms(2)
proof (induction n)
  case 0
  show ?case using assms(1) by simp
next
  case (Suc n)
  then have IH: "(doneWithFrame f ^^ n) st =
           st\<lparr>mFrames := [\<lparr>frameId = bufferId f, refCount = c - word_of_nat n\<rparr>]\<rparr>"
    by simp
  have "unat (c - word_of_nat n) = unat c - n"
    using Suc.prems by (simp add: u32_minus_of_nat)
  then have "unat (c - word_of_nat n) \<noteq> 1"
    using Suc.prems by simp
  then have ne: "c - word_of_nat n \<noteq> 1"
    by auto
  have fr: "mFrames (st\<lparr>mFrames := [\<lparr>frameId = bufferId f, refCount = c - word_of_nat n\<rparr>]\<rparr>)
      = [\<lparr>frameId = bufferId f, refCount = c - word_of_nat n\<rparr>]"
    by simp
  show ?case
    using ne by (simp add: IH doneWithFrame_single_record [OF fr])
qed

lemma doneWithFrame_returns_frame_again:
  assumes "mFrames st = [\<lparr>frameId = bufferId f, refCount = 0\<rparr>]"
  shows "hwDoneWithFrame (doneWithFrame f ((doneWithFrame f ^^ 4294967294) (doneWithFrame f st)))
           = hwDoneWithFrame st @ [bufferId f]"
proof -
  define st1 where "st1 = doneWithFrame f st"
  have s1: "st1 = st\<lparr>mFrames := [\<lparr>frameId = bufferId f, refCount = 4294967295\<rparr>]\<rparr>"
    unfolding st1_def by (simp add: doneWithFrame_single_record [OF assms])
  then have f1: "mFrames st1 = [\<lparr>frameId = bufferId f, refCount = 4294967295\<rparr>]"
    by simp
  have lt: "(4294967294::nat) < unat (4294967295 :: u32)"
    by simp
  define st2 where "st2 = (doneWithFrame f ^^ 4294967294) st1"
  have s2: "st2 = st1\<lparr>mFrames :=
      [\<lparr>frameId = bufferId f, refCount = 4294967295 - word_of_nat 4294967294\<rparr>]\<rparr>"
    unfolding st2_def by (rule doneWithFrame_iterated [OF f1 lt])
  have "(4294967295 :: u32) - word_of_nat 4294967294 = 1"
    by simp
  with s2 have f2: "mFrames st2 = [\<lparr>frameId = bufferId f, refCount = 1\<rparr>]"
    by simp
  have h2: "hwDoneWithFrame st2 = hwDoneWithFrame st"
    by (simp add: s2 s1)
  have "hwDoneWithFrame (doneWithFrame f st2) = hwDoneWithFrame st @ [bufferId f]"
    by (simp add: doneWithFrame_single_record [OF f2] h2)
  then show ?thesis
    by (simp only: st2_def st1_def)
qed

text \<open>
  C1 (the code at the failing input). Frame 7 is delivered and accepted by one client,
  released (and handed back to the device), and released once more. The second
  release finds the record with count 0 and wraps it to \<open>2^32 - 1\<close>. The device
  delivers buffer 7 again and one client accepts it: no slot has count 0 any more, so a
  second record is appended. The client's release finds the first record again, so the
  frame of the second delivery is not handed back to the device: after two deliveries
  and all releases the device has got buffer 7 back once.
\<close>

theorem doneWithFrame_stale_record_loses_frame:
  "(let e = demo_collaborators;
        f = frame7 0;
        s1 = deliverFrame_1_1 e f legacy_camera;
        s2 = doneWithFrame f s1;
        s3 = doneWithFrame f s2;
        s4 = deliverFrame_1_1 e f s3;
        s5 = doneWithFrame f s4
    in vcDeliverFrame s1 = [(2, True)]
     \<and> mFrames s1 = [\<lparr>frameId = 7, refCount = 1\<rparr>] \<and> hwDoneWithFrame s1 = []
     \<and> mFrames s2 = [\<lparr>frameId = 7, refCount = 0\<rparr>] \<and> hwDoneWithFrame s2 = [7]
     \<and> mFrames s3 = [\<lparr>frameId = 7, refCount = 4294967295\<rparr>] \<and> hwDoneWithFrame s3 = [7]
     \<and> vcDeliverFrame s4 = [(2, True), (2, True)]
     \<and> mFrames s4 = [\<lparr>frameId = 7, refCount = 4294967295\<rparr>, \<lparr>frameId = 7, refCount = 1\<rparr>]
     \<and> hwDoneWithFrame s4 = [7]
     \<and> mFrames s5 = [\<lparr>frameId = 7, refCount = 4294967294\<rparr>, \<lparr>frameId = 7, refCount = 1\<rparr>]
     \<and> hwDoneWithFrame s5 = [7])"
  by (simp add: Let_def deliverFrame_1_1_def trackFrame_def doneWithFrame_def legacy_camera_def
      idle_camera_def demo_collaborators_def frame7_def)

section \<open>Theorems: setMaster, unsetMaster\<close>

text \<open>
  C5. \<open>setMaster(C)\<close> returns \<open>OK\<close> and makes \<open>C\<close> the master exactly when no master
  is set, and otherwise returns \<open>OWNERSHIP_LOST\<close> and changes nothing.
  \<open>unsetMaster(C)\<close> returns \<open>INVALID_ARG\<close> and changes nothing when \<open>C\<close> is not what
  the master pointer promotes to; otherwise it clears the master, sends
  \<open>MASTER_RELEASED\<close> to every client that is still alive, and returns \<open>OK\<close>.
\<close>

theorem master_arbiter:
  "(mMaster st = None \<longrightarrow> setMaster c st = (OK, st\<lparr>mMaster := c\<rparr>))
   \<and> (mMaster st \<noteq> None \<longrightarrow> setMaster c st = (OWNERSHIP_LOST, st))
   \<and> (fst (setMaster c st) = OK \<longleftrightarrow> mMaster st = None)
   \<and> (wp_promote e (mMaster st) \<noteq> c \<longrightarrow> unsetMaster e c st = (INVALID_ARG, st))
   \<and> (wp_promote e (mMaster st) = c \<longrightarrow>
         unsetMaster e c st =
           (OK, st\<lparr>mMaster := None,
                   vcNotify := vcNotify st @
                     map (\<lambda>a. (a, MASTER_RELEASED)) (filter (promote e) (mClients st))\<rparr>))"
proof -
  have claim_free: "setMaster c st = (OK, st\<lparr>mMaster := c\<rparr>)" if "mMaster st = None"
    using that by (simp add: setMaster_def)
  have claim_taken: "setMaster c st = (OWNERSHIP_LOST, st)" if "mMaster st \<noteq> None"
    using that by (simp add: setMaster_def)
  have claim_iff: "fst (setMaster c st) = OK \<longleftrightarrow> mMaster st = None"
  proof (cases "mMaster st = None")
    case True
    then show ?thesis by (simp add: claim_free)
  next
    case False
    then show ?thesis by (simp add: claim_taken)
  qed
  have release_other: "unsetMaster e c st = (INVALID_ARG, st)"
    if "wp_promote e (mMaster st) \<noteq> c"
    using that by (simp add: unsetMaster_def)
  have broadcast: "notify e MASTER_RELEASED (st\<lparr>mMaster := None\<rparr>) =
      st\<lparr>mMaster := None,
         vcNotify := vcNotify st @
           map (\<lambda>a. (a, MASTER_RELEASED)) (filter (promote e) (mClients st))\<rparr>"
    by (simp add: notify_def forwardEvent_log)
  have release_owner: "unsetMaster e c st =
           (OK, st\<lparr>mMaster := None,
                   vcNotify := vcNotify st @
                     map (\<lambda>a. (a, MASTER_RELEASED)) (filter (promote e) (mClients st))\<rparr>)"
    if "wp_promote e (mMaster st) = c"
    using that by (simp add: unsetMaster_def broadcast)
  from claim_free claim_taken claim_iff release_other release_owner
  show ?thesis by blast
qed

theorem master_arbiter_witness:
  "setMaster (Some 1) demo_camera = (OK, demo_camera\<lparr>mMaster := Some 1\<rparr>)
   \<and> setMaster (Some 2) (demo_camera\<lparr>mMaster := Some 1\<rparr>)
        = (OWNERSHIP_LOST, demo_camera\<lparr>mMaster := Some 1\<rparr>)
   \<and> unsetMaster demo_collaborators (Some 2) (demo_camera\<lparr>mMaster := Some 1\<rparr>)
        = (INVALID_ARG, demo_camera\<lparr>mMaster := Some 1\<rparr>)
   \<and> unsetMaster demo_collaborators (Some 1) (demo_camera\<lparr>mMaster := Some 1\<rparr>)
        = (OK, demo_camera\<lparr>vcNotify := [(1, MASTER_RELEASED), (2, MASTER_RELEASED)]\<rparr>)"
  using master_arbiter [of demo_camera "Some 1" demo_collaborators]
    master_arbiter [of "demo_camera\<lparr>mMaster := Some 1\<rparr>" "Some 2" demo_collaborators]
    master_arbiter [of "demo_camera\<lparr>mMaster := Some 1\<rparr>" "Some 1" demo_collaborators]
  by (simp add: wp_promote_def demo_collaborators_def demo_camera_def idle_camera_def)


section \<open>Theorems: the slot pair of StreamHandler\<close>

lemma slots_ok_init: "slots_ok StreamHandler_init"
  by (simp add: slots_ok_def StreamHandler_init_def)

lemma slots_ok_deliverFrame_1_1:
  assumes "slots_ok st"
  shows "slots_ok (StreamHandler_deliverFrame_1_1 b st)"
proof -
  from assms consider "mHeldBuffer st = - 1" | "mHeldBuffer st = 0" | "mHeldBuffer st = 1"
    by (auto simp: slots_ok_def)
  then show ?thesis
  proof cases
    case 1
    with assms show ?thesis
      by (auto simp: slots_ok_def StreamHandler_deliverFrame_1_1_def Let_def)
  next
    case 2
    with assms show ?thesis
      by (auto simp: slots_ok_def StreamHandler_deliverFrame_1_1_def Let_def)
  next
    case 3
    with assms show ?thesis
      by (auto simp: slots_ok_def StreamHandler_deliverFrame_1_1_def Let_def)
  qed
qed

lemma slots_ok_getNewFrame:
  assumes "slots_ok st"
  shows "slots_ok (snd (getNewFrame st))"
  using assms by (auto simp: slots_ok_def getNewFrame_def Let_def)

lemma slots_ok_doneWithFrame:
  assumes "slots_ok st"
  shows "slots_ok (StreamHandler_doneWithFrame b st)"
  using assms by (auto simp: slots_ok_def StreamHandler_doneWithFrame_def)

lemma slots_ok_call: "slots_ok st \<Longrightarrow> slots_ok (StreamHandler_call st c)"
  by (cases c) (simp_all add: slots_ok_deliverFrame_1_1 slots_ok_getNewFrame slots_ok_doneWithFrame)

lemma slots_ok_foldl: "slots_ok st \<Longrightarrow> slots_ok (foldl StreamHandler_call st calls)"
  by (induction calls arbitrary: st) (simp_all add: slots_ok_call)


text \<open>
  C6. After any sequence of \<open>deliverFrame_1_1\<close>, \<open>getNewFrame\<close> and \<open>doneWithFrame\<close>
  calls on a freshly constructed stream handler, \<open>mReadyBuffer\<close> and \<open>mHeldBuffer\<close>
  are each -1, 0 or 1, and they never hold the same non-negative value.
\<close>

theorem ready_and_held_differ:
  "mHeldBuffer (StreamHandler_run calls) \<in> {- 1, 0, 1}
   \<and> mReadyBuffer (StreamHandler_run calls) \<in> {- 1, 0, 1}
   \<and> \<not> (0 \<le> mReadyBuffer (StreamHandler_run calls)
          \<and> mReadyBuffer (StreamHandler_run calls) = mHeldBuffer (StreamHandler_run calls))"
  using slots_ok_foldl [OF slots_ok_init, of calls]
  by (simp add: slots_ok_def StreamHandler_run_def)

theorem ready_and_held_differ_witness:
  "mHeldBuffer (StreamHandler_run [DeliverFrame (frame_id 1), GetNewFrame,
       DeliverFrame (frame_id 2), DeliverFrame (frame_id 3)]) = 0
   \<and> mReadyBuffer (StreamHandler_run [DeliverFrame (frame_id 1), GetNewFrame,
       DeliverFrame (frame_id 2), DeliverFrame (frame_id 3)]) = 1
   \<and> mBuffers (StreamHandler_run [DeliverFrame (frame_id 1), GetNewFrame,
       DeliverFrame (frame_id 2), DeliverFrame (frame_id 3)]) = [frame_id 1, frame_id 3]
   \<and> camDoneWithFrame (StreamHandler_run [DeliverFrame (frame_id 1), GetNewFrame,
       DeliverFrame (frame_id 2), DeliverFrame (frame_id 3)]) = [Some (frame_id 2)]"
  using ready_and_held_differ [of "[DeliverFrame (frame_id 1), GetNewFrame,
       DeliverFrame (frame_id 2), DeliverFrame (frame_id 3)]"]
  by (simp add: StreamHandler_run_def StreamHandler_init_def getNewFrame_def
      StreamHandler_deliverFrame_1_1_def Let_def buffer_at_def buffer_store_def frame_id_def)


text \<open>
  C7 (as stated). With nothing held and nothing ready, \<open>getNewFrame\<close> does not move
  the ready index (-1) into the held index: it makes slot 0 the held one and returns
  \<open>mBuffers[0]\<close>.
\<close>

theorem getNewFrame_without_ready_frame:
  "\<not> getNewFrame_moves_ready StreamHandler_init"
  by (simp add: getNewFrame_moves_ready_def getNewFrame_def StreamHandler_init_def Let_def)


text \<open>
  C7 (amended). \<open>getNewFrame\<close>: if a frame is held, the state is unchanged and the held
  frame is returned. Otherwise, if a frame is ready, the ready index moves into the held
  index, the ready index becomes -1, and the frame now held is returned. Otherwise
  (nothing held, nothing ready) slot 0 becomes the held one, the ready index stays -1,
  and \<open>mBuffers[0]\<close> is returned.
\<close>

theorem getNewFrame_spec:
  "(0 \<le> mHeldBuffer st \<longrightarrow>
      getNewFrame st = (buffer_at (mBuffers st) (mHeldBuffer st), st))
   \<and> (mHeldBuffer st < 0 \<and> 0 \<le> mReadyBuffer st \<longrightarrow>
      getNewFrame st =
        (buffer_at (mBuffers st) (mReadyBuffer st),
         st\<lparr>mHeldBuffer := mReadyBuffer st, mReadyBuffer := - 1\<rparr>))
   \<and> (mHeldBuffer st < 0 \<and> mReadyBuffer st < 0 \<longrightarrow>
      getNewFrame st =
        (buffer_at (mBuffers st) 0, st\<lparr>mHeldBuffer := 0, mReadyBuffer := - 1\<rparr>))"
proof (cases "0 \<le> mHeldBuffer st")
  case True
  then show ?thesis by (simp add: getNewFrame_def)
next
  case False
  show ?thesis
  proof (cases "0 \<le> mReadyBuffer st")
    case True
    with False show ?thesis by (simp add: getNewFrame_def Let_def)
  next
    case lie: False
    with False show ?thesis by (simp add: getNewFrame_def Let_def)
  qed
qed

theorem getNewFrame_spec_witness:
  "getNewFrame (StreamHandler_run [DeliverFrame (frame_id 1)])
     = (Some (frame_id 1),
        (StreamHandler_run [DeliverFrame (frame_id 1)])\<lparr>mHeldBuffer := 0, mReadyBuffer := - 1\<rparr>)
   \<and> getNewFrame (StreamHandler_run [DeliverFrame (frame_id 1), GetNewFrame])
     = (Some (frame_id 1), StreamHandler_run [DeliverFrame (frame_id 1), GetNewFrame])
   \<and> getNewFrame StreamHandler_init
     = (Some emptyBufferDesc, StreamHandler_init\<lparr>mHeldBuffer := 0\<rparr>)"
  using getNewFrame_spec [of "StreamHandler_run [DeliverFrame (frame_id 1)]"]
    getNewFrame_spec [of "StreamHandler_run [DeliverFrame (frame_id 1), GetNewFrame]"]
    getNewFrame_spec [of StreamHandler_init]
  by (simp add: StreamHandler_run_def StreamHandler_init_def getNewFrame_def
      StreamHandler_deliverFrame_1_1_def Let_def buffer_at_def buffer_store_def frame_id_def)

section \<open>Theorems: the buffer pool of EvsV4lCamera\<close>

text \<open>A call on a camera whose video device is no longer open changes nothing.\<close>

lemma setMaxFramesInFlight_camera_lost:
  "\<not> videoIsOpen st \<Longrightarrow> setMaxFramesInFlight n st = (OWNERSHIP_LOST, st)"
  by (simp add: setMaxFramesInFlight_def)


text \<open>
  When the allocator fails after at least one buffer was added, the rollback frees as
  many idle buffers as were added and the allowed count is what it was before.
\<close>

lemma idleBuffers_storeBuffer: "idleBuffers (storeBuffer h rs) = Suc (idleBuffers rs)"
  by (induction rs) (auto simp: idleBuffers_def)

lemma increaseAvailableFrames_Locked_effect:
  "idleBuffers (mBuffersV4l (snd (increaseAvailableFrames_Locked n st)))
     = idleBuffers (mBuffersV4l st) + fst (increaseAvailableFrames_Locked n st)
   \<and> mFramesAllowed (snd (increaseAvailableFrames_Locked n st))
     = mFramesAllowed st + word_of_nat (fst (increaseAvailableFrames_Locked n st))
   \<and> allocFreed (snd (increaseAvailableFrames_Locked n st)) = allocFreed st
   \<and> videoIsOpen (snd (increaseAvailableFrames_Locked n st)) = videoIsOpen st"
proof (induction n arbitrary: st)
  case 0
  show ?case by simp
next
  case (Suc n)
  show ?case
  proof (cases "allocResults st")
    case Nil
    then show ?thesis by simp
  next
    case (Cons res later)
    show ?thesis
    proof (cases res)
      case AllocError
      with Cons show ?thesis by simp
    next
      case (AllocOk hopt ppl)
      show ?thesis
      proof (cases hopt)
        case None
        with Cons AllocOk show ?thesis by simp
      next
        case (Some h)
        define st3 where "st3 =
          (if mStride st \<noteq> 0 then st\<lparr>allocResults := later\<rparr>
           else st\<lparr>allocResults := later, mStride := ppl\<rparr>)
            \<lparr>mBuffersV4l := storeBuffer h (mBuffersV4l st),
             mFramesAllowed := mFramesAllowed st + 1\<rparr>"
        have step: "increaseAvailableFrames_Locked (Suc n) st =
            (Suc (fst (increaseAvailableFrames_Locked n st3)),
             snd (increaseAvailableFrames_Locked n st3))"
          using Cons AllocOk Some by (simp add: Let_def split_beta st3_def)
        have base: "idleBuffers (mBuffersV4l st3) = Suc (idleBuffers (mBuffersV4l st))"
          "mFramesAllowed st3 = mFramesAllowed st + 1" "allocFreed st3 = allocFreed st"
          "videoIsOpen st3 = videoIsOpen st"
          by (simp_all add: st3_def idleBuffers_storeBuffer)
        show ?thesis
          unfolding step using Suc.IH [of st3] base by simp
      qed
    qed
  qed
qed

lemma releaseBuffers_removed:
  "removed < n \<Longrightarrow> n - removed \<le> idleBuffers rs \<Longrightarrow>
     snd (snd (releaseBuffers n rs removed)) = n
     \<and> length (fst (snd (releaseBuffers n rs removed))) = n - removed"
proof (induction rs arbitrary: removed)
  case Nil
  then show ?case by (simp add: idleBuffers_def)
next
  case (Cons r rs)
  show ?case
  proof (cases "\<not> inUse r \<and> handle r \<noteq> None")
    case True
    then obtain h where h: "handle r = Some h" by auto
    show ?thesis
    proof (cases "Suc removed = n")
      case True
      with h \<open>\<not> inUse r \<and> handle r \<noteq> None\<close> show ?thesis by auto
    next
      case False
      with Cons.prems have lt: "Suc removed < n" by simp
      from Cons.prems True have "n - Suc removed \<le> idleBuffers rs"
        by (simp add: idleBuffers_def)
      from Cons.IH [OF lt this] h True False lt show ?thesis
        by (simp add: split_beta Suc_diff_Suc)
    qed
  next
    case False
    with Cons.prems have "n - removed \<le> idleBuffers rs"
      by (auto simp: idleBuffers_def)
    from Cons.IH [OF Cons.prems(1) this] False show ?thesis
      by (auto simp: split_beta split: option.splits)
  qed
qed

lemma setMaxFramesInFlight_rollback_restores_count:
  assumes "videoIsOpen st" and "mFramesAllowed st < bufferCount"
    and "bufferCount \<le> MAX_BUFFERS_IN_FLIGHT"
    and "added = fst (increaseAvailableFrames_Locked (unat (bufferCount - mFramesAllowed st)) st)"
    and "0 < added" and "added \<noteq> unat (bufferCount - mFramesAllowed st)"
  shows "fst (setMaxFramesInFlight bufferCount st) = BUFFER_NOT_AVAILABLE
    \<and> mFramesAllowed (snd (setMaxFramesInFlight bufferCount st)) = mFramesAllowed st
    \<and> length (allocFreed (snd (setMaxFramesInFlight bufferCount st)))
        = length (allocFreed st) + added"
proof -
  define needed where "needed = unat (bufferCount - mFramesAllowed st)"
  define st1 where "st1 = snd (increaseAvailableFrames_Locked needed st)"
  have inc: "increaseAvailableFrames_Locked needed st = (added, st1)"
    by (simp add: assms(4) st1_def needed_def)
  have eff: "idleBuffers (mBuffersV4l st1) = idleBuffers (mBuffersV4l st) + added"
    "mFramesAllowed st1 = mFramesAllowed st + word_of_nat added"
    "allocFreed st1 = allocFreed st"
    using increaseAvailableFrames_Locked_effect [of needed st] unfolding inc by simp_all
  have rel: "snd (snd (releaseBuffers added (mBuffersV4l st1) 0)) = added"
    "length (fst (snd (releaseBuffers added (mBuffersV4l st1) 0))) = added"
    using releaseBuffers_removed [of 0 added "mBuffersV4l st1"] assms(5) eff(1) by simp_all
  have dec: "mFramesAllowed (snd (decreaseAvailableFrames_Locked added st1)) = mFramesAllowed st"
    "length (allocFreed (snd (decreaseAvailableFrames_Locked added st1)))
       = length (allocFreed st) + added"
    using rel eff by (simp_all add: decreaseAvailableFrames_Locked_def split_beta)
  have "bufferCount \<noteq> 0"
  proof
    assume "bufferCount = 0"
    with assms(2) have "mFramesAllowed st < 0" by simp
    then show False by simp
  qed
  then have one: "\<not> bufferCount < 1"
    by simp
  have run: "setAvailableFrames_Locked bufferCount st =
      (False, snd (decreaseAvailableFrames_Locked added st1))"
    using one assms(2,3,6) inc
    by (simp add: setAvailableFrames_Locked_def Let_def needed_def [symmetric] not_less)
  show ?thesis
    using assms(1) one run dec by (simp add: setMaxFramesInFlight_def)
qed

text \<open>
  The rollback frees the first idle buffers of the array, which need not be the ones
  just allocated: here buffer 21 is new and stays, buffer 11 is freed.
\<close>

lemma setMaxFramesInFlight_rollback_frees_first_idle:
  "setMaxFramesInFlight 3 one_idle_buffer =
     (BUFFER_NOT_AVAILABLE,
      one_idle_buffer\<lparr>mFramesAllowed := 1,
        mBuffersV4l := [\<lparr>handle = None, inUse = False\<rparr>, \<lparr>handle = Some 21, inUse = False\<rparr>],
        allocResults := [], allocFreed := [11]\<rparr>)"
proof -
  have two: "increaseAvailableFrames_Locked 2 st = increaseAvailableFrames_Locked (Suc (Suc 0)) st"
    for st
    by (simp only: numeral_2_eq_2)
  show ?thesis
    by (simp add: setMaxFramesInFlight_def setAvailableFrames_Locked_def two
        decreaseAvailableFrames_Locked_def MAX_BUFFERS_IN_FLIGHT_def one_idle_buffer_def Let_def)
qed

text \<open>
  C9 (the code at the failing input). The camera is open, allows 2 frames and holds two
  idle buffers; \<open>setMaxFramesInFlight(3)\<close> needs one more buffer and the allocator
  fails at once. So \<open>added\<close> is 0, and the rollback calls
  \<open>decreaseAvailableFrames_Locked(0)\<close>, whose loop tests \<open>removed == numToRemove\<close>
  only after it has freed a buffer: it never stops early, frees both idle buffers and
  leaves \<open>mFramesAllowed\<close> at 0 instead of the previous 2. The call returns
  \<open>BUFFER_NOT_AVAILABLE\<close>.
\<close>

theorem setMaxFramesInFlight_rollback_frees_idle_buffers:
  "setMaxFramesInFlight 3 two_idle_buffers =
     (BUFFER_NOT_AVAILABLE,
      two_idle_buffers\<lparr>mFramesAllowed := 0,
        mBuffersV4l := [\<lparr>handle = None, inUse = False\<rparr>, \<lparr>handle = None, inUse = False\<rparr>],
        allocResults := [], allocFreed := [11, 12]\<rparr>)
   \<and> mFramesAllowed two_idle_buffers = 2"
  by (simp add: setMaxFramesInFlight_def setAvailableFrames_Locked_def
      decreaseAvailableFrames_Locked_def MAX_BUFFERS_IN_FLIGHT_def two_idle_buffers_def Let_def)

section \<open>Theorems: Create\<close>

lemma to_uint32_id: "0 \<le> x \<Longrightarrow> x < 2 ^ 32 \<Longrightarrow> to_uint32 x = x"
  by (simp add: to_uint32_def)

lemma to_int32_id: "0 \<le> x \<Longrightarrow> x < 2 ^ 31 \<Longrightarrow> to_int32 x = x"
  by (simp add: to_int32_def)

lemma selectStream_step:
  assumes "0 \<le> cfg_width cfg" "cfg_width cfg < 2 ^ 31" "0 \<le> cfg_height cfg"
    "cfg_height cfg < 2 ^ 31" "cfg_width cfg * cfg_height cfg < 2 ^ 31"
    and "to_uint32 (cfg_format cfg) = to_uint32 (stream_format req) \<longrightarrow>
          \<not> (cfg_width cfg = stream_width req \<and> cfg_height cfg = stream_height req)"
  shows "selectStream req ((i, cfg) # rest) (streamId, area) =
     (if to_uint32 (cfg_format cfg) = to_uint32 (stream_format req)
         \<and> cfg_width cfg < stream_width req \<and> cfg_height cfg < stream_height req
         \<and> area < cfg_width cfg * cfg_height cfg
      then selectStream req rest (i, cfg_width cfg * cfg_height cfg)
      else selectStream req rest (streamId, area))"
proof -
  have w: "to_uint32 (cfg_width cfg) = cfg_width cfg"
    using assms(1,2) by (simp add: to_uint32_id)
  have h: "to_uint32 (cfg_height cfg) = cfg_height cfg"
    using assms(3,4) by (simp add: to_uint32_id)
  have "0 \<le> cfg_width cfg * cfg_height cfg"
    using assms(1,3) by simp
  then have a: "to_int32 (cfg_width cfg * cfg_height cfg) = cfg_width cfg * cfg_height cfg"
    using assms(5) by (simp add: to_int32_id)
  show ?thesis
    using assms(6) by (auto simp: w h a)
qed

lemma selectStream_inv:
  assumes "\<forall>(i, cfg) \<in> set cfgs.
      0 \<le> cfg_width cfg \<and> cfg_width cfg < 2 ^ 31 \<and> 0 \<le> cfg_height cfg
      \<and> cfg_height cfg < 2 ^ 31 \<and> cfg_width cfg * cfg_height cfg < 2 ^ 31"
    and "\<forall>(i, cfg) \<in> set cfgs.
      to_uint32 (cfg_format cfg) = to_uint32 (stream_format req) \<longrightarrow>
        \<not> (cfg_width cfg = stream_width req \<and> cfg_height cfg = stream_height req)"
  shows "area \<le> snd (selectStream req cfgs (streamId, area))
    \<and> (\<forall>(i, cfg) \<in> set cfgs.
          to_uint32 (cfg_format cfg) = to_uint32 (stream_format req)
          \<and> cfg_width cfg < stream_width req \<and> cfg_height cfg < stream_height req \<longrightarrow>
            cfg_width cfg * cfg_height cfg \<le> snd (selectStream req cfgs (streamId, area)))
    \<and> (selectStream req cfgs (streamId, area) = (streamId, area)
        \<or> (\<exists>cfg. (fst (selectStream req cfgs (streamId, area)), cfg) \<in> set cfgs
              \<and> to_uint32 (cfg_format cfg) = to_uint32 (stream_format req)
              \<and> cfg_width cfg < stream_width req \<and> cfg_height cfg < stream_height req
              \<and> snd (selectStream req cfgs (streamId, area)) = cfg_width cfg * cfg_height cfg))"
  using assms
proof (induction cfgs arbitrary: streamId area)
  case Nil
  show ?case by simp
next
  case (Cons p rest)
  obtain i cfg where p: "p = (i, cfg)" by (cases p)
  have sane: "0 \<le> cfg_width cfg" "cfg_width cfg < 2 ^ 31" "0 \<le> cfg_height cfg"
    "cfg_height cfg < 2 ^ 31" "cfg_width cfg * cfg_height cfg < 2 ^ 31"
    using Cons.prems(1) by (simp_all add: p)
  have noexact: "to_uint32 (cfg_format cfg) = to_uint32 (stream_format req) \<longrightarrow>
          \<not> (cfg_width cfg = stream_width req \<and> cfg_height cfg = stream_height req)"
    using Cons.prems(2) by (simp add: p)
  have rest1: "\<forall>(i, cfg) \<in> set rest.
      0 \<le> cfg_width cfg \<and> cfg_width cfg < 2 ^ 31 \<and> 0 \<le> cfg_height cfg
      \<and> cfg_height cfg < 2 ^ 31 \<and> cfg_width cfg * cfg_height cfg < 2 ^ 31"
    using Cons.prems(1) by simp
  have rest2: "\<forall>(i, cfg) \<in> set rest.
      to_uint32 (cfg_format cfg) = to_uint32 (stream_format req) \<longrightarrow>
        \<not> (cfg_width cfg = stream_width req \<and> cfg_height cfg = stream_height req)"
    using Cons.prems(2) by simp
  note step = selectStream_step [OF sane noexact, of i rest streamId area]
  show ?case
  proof (cases "to_uint32 (cfg_format cfg) = to_uint32 (stream_format req)
         \<and> cfg_width cfg < stream_width req \<and> cfg_height cfg < stream_height req
         \<and> area < cfg_width cfg * cfg_height cfg")
    case True
    then have run: "selectStream req (p # rest) (streamId, area) =
        selectStream req rest (i, cfg_width cfg * cfg_height cfg)"
      unfolding p step by simp
    from Cons.IH [OF rest1 rest2, of "cfg_width cfg * cfg_height cfg" i] True
    show ?thesis
      unfolding run by (auto simp: p)
  next
    case False
    then have run: "selectStream req (p # rest) (streamId, area) =
        selectStream req rest (streamId, area)"
      unfolding p step by auto
    from Cons.IH [OF rest1 rest2, of area streamId] False
    show ?thesis
      unfolding run by (auto simp: p)
  qed
qed

lemma Create_by_selection:
  "Create video_open (Some cfgs) (Some req) =
     (let sel = selectStream req cfgs (- 1, INT_MIN)
      in if 0 \<le> fst sel
         then
           let cfg = streamConfiguration_at cfgs (fst sel)
           in if video_open (cfg_width cfg) (cfg_height cfg)
              then Some \<lparr>opened_width = cfg_width cfg, opened_height = cfg_height cfg,
                         mFormat = to_uint32 (cfg_format cfg)\<rparr>
              else if video_open 640 480
              then Some \<lparr>opened_width = 640, opened_height = 480,
                         mFormat = to_uint32 (cfg_format cfg)\<rparr>
              else None
         else if video_open 640 480
         then Some \<lparr>opened_width = 640, opened_height = 480, mFormat = 1\<rparr>
         else None)"
  by (simp add: Create_def Let_def split_beta kDefaultResolution_def
      HAL_PIXEL_FORMAT_RGBA_8888_def)

lemma Create_without_request:
  "Create video_open None r =
     (if video_open 640 480
      then Some \<lparr>opened_width = 640, opened_height = 480, mFormat = 1\<rparr> else None)"
  "Create video_open ci None =
     (if video_open 640 480
      then Some \<lparr>opened_width = 640, opened_height = 480, mFormat = 1\<rparr> else None)"
  by (simp_all add: Create_def Let_def kDefaultResolution_def HAL_PIXEL_FORMAT_RGBA_8888_def
      split: option.splits)


text \<open>
  C8 (as stated). The request is 1280 x 720; the configuration 1280 x 480 of the same
  format fits within these bounds and is the largest that does, but its width is not
  strictly smaller than the requested one, so \<open>Create\<close> passes over it and opens
  640 x 360.
\<close>

theorem Create_skips_equal_width:
  "\<not> create_picks_largest_fitting (\<lambda>w h. True) demo_configurations hd_request
   \<and> Create (\<lambda>w h. True) (Some demo_configurations) (Some hd_request)
       = Some \<lparr>opened_width = 640, opened_height = 360, mFormat = 1\<rparr>"
  by (simp add: create_picks_largest_fitting_def Create_def demo_configurations_def
      rawConfig_def hd_request_def to_uint32_def to_int32_def INT_MIN_def
      streamConfiguration_at_def Let_def HAL_PIXEL_FORMAT_RGBA_8888_def kDefaultResolution_def)

text \<open>
  C8 (amended). Let no configuration of the requested format have exactly the requested
  width and height (sizes are non-negative with an area below \<open>2^31\<close>, ids are
  non-negative map keys). If some configuration of the requested format is strictly
  smaller than the request in both width and height, \<open>Create\<close> selects one of them
  whose area is largest among them, and when the device opens with that size the
  camera has the size and the format of the selected configuration. If there is none,
  or the camera information or the requested configuration is absent, the device is
  opened with 640 x 480 and the RGBA_8888 format, and \<open>Create\<close> returns null when
  that open fails. (What the camera is after the open with the selected configuration
  has failed is not part of the statement.)
\<close>

theorem Create_picks_largest_smaller:
  assumes sane: "\<forall>(i, cfg) \<in> set cfgs.
      0 \<le> i \<and> 0 \<le> cfg_width cfg \<and> cfg_width cfg < 2 ^ 31 \<and> 0 \<le> cfg_height cfg
      \<and> cfg_height cfg < 2 ^ 31 \<and> cfg_width cfg * cfg_height cfg < 2 ^ 31"
    and keys: "distinct (map fst cfgs)"
    and noexact: "\<forall>(i, cfg) \<in> set cfgs.
      to_uint32 (cfg_format cfg) = to_uint32 (stream_format req) \<longrightarrow>
        \<not> (cfg_width cfg = stream_width req \<and> cfg_height cfg = stream_height req)"
  shows
    "((\<exists>(i, cfg) \<in> set cfgs.
          to_uint32 (cfg_format cfg) = to_uint32 (stream_format req)
          \<and> cfg_width cfg < stream_width req \<and> cfg_height cfg < stream_height req) \<longrightarrow>
       (\<exists>(i, cfg) \<in> set cfgs.
          to_uint32 (cfg_format cfg) = to_uint32 (stream_format req)
          \<and> cfg_width cfg < stream_width req \<and> cfg_height cfg < stream_height req
          \<and> (\<forall>(j, other) \<in> set cfgs.
                to_uint32 (cfg_format other) = to_uint32 (stream_format req)
                \<and> cfg_width other < stream_width req \<and> cfg_height other < stream_height req \<longrightarrow>
                  cfg_width other * cfg_height other \<le> cfg_width cfg * cfg_height cfg)
          \<and> (video_open (cfg_width cfg) (cfg_height cfg) \<longrightarrow>
                Create video_open (Some cfgs) (Some req) =
                  Some \<lparr>opened_width = cfg_width cfg, opened_height = cfg_height cfg,
                         mFormat = to_uint32 (cfg_format cfg)\<rparr>)))
     \<and> (\<not> (\<exists>(i, cfg) \<in> set cfgs.
          to_uint32 (cfg_format cfg) = to_uint32 (stream_format req)
          \<and> cfg_width cfg < stream_width req \<and> cfg_height cfg < stream_height req) \<longrightarrow>
        Create video_open (Some cfgs) (Some req) =
          (if video_open 640 480
           then Some \<lparr>opened_width = 640, opened_height = 480, mFormat = 1\<rparr> else None))
     \<and> Create video_open None (Some req) =
          (if video_open 640 480
           then Some \<lparr>opened_width = 640, opened_height = 480, mFormat = 1\<rparr> else None)
     \<and> Create video_open (Some cfgs) None =
          (if video_open 640 480
           then Some \<lparr>opened_width = 640, opened_height = 480, mFormat = 1\<rparr> else None)"
proof -
  define sid where "sid = fst (selectStream req cfgs (- 1, INT_MIN))"
  define ar where "ar = snd (selectStream req cfgs (- 1, INT_MIN))"
  have sane': "\<forall>(i, cfg) \<in> set cfgs.
      0 \<le> cfg_width cfg \<and> cfg_width cfg < 2 ^ 31 \<and> 0 \<le> cfg_height cfg
      \<and> cfg_height cfg < 2 ^ 31 \<and> cfg_width cfg * cfg_height cfg < 2 ^ 31"
    using sane by auto
  note inv = selectStream_inv [OF sane' noexact, of INT_MIN "- 1", folded sid_def ar_def]
  have best: "\<forall>(i, cfg) \<in> set cfgs.
          to_uint32 (cfg_format cfg) = to_uint32 (stream_format req)
          \<and> cfg_width cfg < stream_width req \<and> cfg_height cfg < stream_height req \<longrightarrow>
            cfg_width cfg * cfg_height cfg \<le> ar"
    using inv by blast
  have sel: "selectStream req cfgs (- 1, INT_MIN) = (- 1, INT_MIN)
        \<or> (\<exists>cfg. (sid, cfg) \<in> set cfgs
              \<and> to_uint32 (cfg_format cfg) = to_uint32 (stream_format req)
              \<and> cfg_width cfg < stream_width req \<and> cfg_height cfg < stream_height req
              \<and> ar = cfg_width cfg * cfg_height cfg)"
    using inv by blast
  have some: ?thesis
    if cand: "\<exists>(i, cfg) \<in> set cfgs.
          to_uint32 (cfg_format cfg) = to_uint32 (stream_format req)
          \<and> cfg_width cfg < stream_width req \<and> cfg_height cfg < stream_height req"
  proof -
    from cand obtain i0 c0 where c0: "(i0, c0) \<in> set cfgs"
      "to_uint32 (cfg_format c0) = to_uint32 (stream_format req)"
      "cfg_width c0 < stream_width req" "cfg_height c0 < stream_height req"
      by blast
    from sane c0(1) have "0 \<le> cfg_width c0 * cfg_height c0" by auto
    moreover from best c0 have "cfg_width c0 * cfg_height c0 \<le> ar" by blast
    ultimately have "0 \<le> ar" by simp
    then have "selectStream req cfgs (- 1, INT_MIN) \<noteq> (- 1, INT_MIN)"
      unfolding ar_def by (auto simp: INT_MIN_def)
    with sel obtain cfg where cfg: "(sid, cfg) \<in> set cfgs"
      "to_uint32 (cfg_format cfg) = to_uint32 (stream_format req)"
      "cfg_width cfg < stream_width req" "cfg_height cfg < stream_height req"
      "ar = cfg_width cfg * cfg_height cfg"
      by blast
    from sane cfg(1) have nonneg: "0 \<le> sid" by auto
    from keys cfg(1) have "map_of cfgs sid = Some cfg" by simp
    then have at: "streamConfiguration_at cfgs sid = cfg"
      by (simp add: streamConfiguration_at_def)
    have created: "Create video_open (Some cfgs) (Some req) =
              (if video_open (cfg_width cfg) (cfg_height cfg)
               then Some \<lparr>opened_width = cfg_width cfg, opened_height = cfg_height cfg,
                          mFormat = to_uint32 (cfg_format cfg)\<rparr>
               else if video_open 640 480
               then Some \<lparr>opened_width = 640, opened_height = 480,
                          mFormat = to_uint32 (cfg_format cfg)\<rparr>
               else None)"
      unfolding Create_by_selection Let_def using nonneg at by (simp add: sid_def)
    have largest: "\<forall>(j, other) \<in> set cfgs.
                to_uint32 (cfg_format other) = to_uint32 (stream_format req)
                \<and> cfg_width other < stream_width req \<and> cfg_height other < stream_height req \<longrightarrow>
                  cfg_width other * cfg_height other \<le> cfg_width cfg * cfg_height cfg"
      using best unfolding cfg(5) .
    have "\<exists>(i, cfg) \<in> set cfgs.
          to_uint32 (cfg_format cfg) = to_uint32 (stream_format req)
          \<and> cfg_width cfg < stream_width req \<and> cfg_height cfg < stream_height req
          \<and> (\<forall>(j, other) \<in> set cfgs.
                to_uint32 (cfg_format other) = to_uint32 (stream_format req)
                \<and> cfg_width other < stream_width req \<and> cfg_height other < stream_height req \<longrightarrow>
                  cfg_width other * cfg_height other \<le> cfg_width cfg * cfg_height cfg)
          \<and> (video_open (cfg_width cfg) (cfg_height cfg) \<longrightarrow>
                Create video_open (Some cfgs) (Some req) =
                  Some \<lparr>opened_width = cfg_width cfg, opened_height = cfg_height cfg,
                         mFormat = to_uint32 (cfg_format cfg)\<rparr>)"
      using cfg(1-4) largest created by (intro bexI [of _ "(sid, cfg)"]) simp_all
    then show ?thesis
      using cand Create_without_request by simp
  qed
  have none: ?thesis
    if nocand: "\<not> (\<exists>(i, cfg) \<in> set cfgs.
          to_uint32 (cfg_format cfg) = to_uint32 (stream_format req)
          \<and> cfg_width cfg < stream_width req \<and> cfg_height cfg < stream_height req)"
  proof -
    from sel nocand have "selectStream req cfgs (- 1, INT_MIN) = (- 1, INT_MIN)"
      by blast
    then have "Create video_open (Some cfgs) (Some req) =
          (if video_open 640 480
           then Some \<lparr>opened_width = 640, opened_height = 480, mFormat = 1\<rparr> else None)"
      unfolding Create_by_selection Let_def by simp
    then show ?thesis
      using nocand Create_without_request by simp
  qed
  from some none show ?thesis by blast
qed

theorem Create_picks_largest_smaller_witness:
  "distinct (map fst demo_configurations)
   \<and> Create (\<lambda>w h. True) (Some demo_configurations) (Some hd_request)
       = Some \<lparr>opened_width = 640, opened_height = 360, mFormat = 1\<rparr>
   \<and> Create (\<lambda>w h. True) (Some demo_configurations)
         (Some (hd_request\<lparr>stream_width := 320\<rparr>))
       = Some \<lparr>opened_width = 640, opened_height = 480, mFormat = 1\<rparr>"
proof -
  have s: "\<forall>(i, cfg) \<in> set demo_configurations.
      0 \<le> i \<and> 0 \<le> cfg_width cfg \<and> cfg_width cfg < 2 ^ 31 \<and> 0 \<le> cfg_height cfg
      \<and> cfg_height cfg < 2 ^ 31 \<and> cfg_width cfg * cfg_height cfg < 2 ^ 31"
    by (simp add: demo_configurations_def rawConfig_def)
  have k: "distinct (map fst demo_configurations)"
    by (simp add: demo_configurations_def rawConfig_def)
  have n: "\<forall>(i, cfg) \<in> set demo_configurations.
      to_uint32 (cfg_format cfg) = to_uint32 (stream_format r) \<longrightarrow>
        \<not> (cfg_width cfg = stream_width r \<and> cfg_height cfg = stream_height r)"
    if "r = hd_request \<or> r = hd_request\<lparr>stream_width := 320\<rparr>" for r
    using that by (auto simp: demo_configurations_def rawConfig_def hd_request_def)
  from Create_picks_largest_smaller [OF s k n, of hd_request "\<lambda>w h. True"]
    Create_picks_largest_smaller [OF s k n, of "hd_request\<lparr>stream_width := 320\<rparr>" "\<lambda>w h. True"]
    k
  show ?thesis
    by (simp add: demo_configurations_def rawConfig_def hd_request_def to_uint32_def)
qed

end
